theory Spec2Isabelle
  imports Complex_Main "HOL-Library.Monad_Syntax" "HOL-Library.Multiset"
begin

section \<open>Scope of the model\<close>

text \<open>
  The development embeds \<^verbatim>\<open>map-maker.py\<close>: \<^verbatim>\<open>parse_timestamp\<close>,
  \<^verbatim>\<open>extract_coordinates\<close>, \<^verbatim>\<open>haversine\<close>, \<^verbatim>\<open>process_data\<close> and the
  empty-frame guard of \<^verbatim>\<open>create_map\<close>.

  \<^item> Text is over the code points \<^verbatim>\<open>U+0000\<close> to \<^verbatim>\<open>U+00FF\<close>: a \<open>char\<close> is one such code
    point, and the classes \<^verbatim>\<open>\s\<close> and \<^verbatim>\<open>\d\<close> of Python's \<^verbatim>\<open>re\<close> and the letters that
    \<^verbatim>\<open>re.IGNORECASE\<close> identifies are taken on these code points. Text with a code
    point from \<^verbatim>\<open>U+0100\<close> on (where there are more characters of white space and more
    digits) is outside the model, and no statement below is about such text.
  \<^item> A cell of the input frame is text, a number or the missing value, as
    \<^verbatim>\<open>read_csv\<close> delivers it.
  \<^item> Python floats are the real numbers: IEEE rounding is outside the model, so every
    statement about \<^verbatim>\<open>distance_km\<close> and the speed is a statement of exact arithmetic.
    Where rounding changes what the program does, the text before the definition says so.
  \<^item> The diagnostics that the parsers print are not modelled; a parser returns
    \<open>None\<close> where the source prints and returns \<^verbatim>\<open>None\<close>.
  \<^item> An exception that leaves \<^verbatim>\<open>process_data\<close> is the \<open>Inl\<close> branch of a sum.
  \<^item> The frame is a list of rows. What the program relies on of pandas, numpy and the
    standard library (\<^verbatim>\<open>strptime\<close>, \<^verbatim>\<open>re.match\<close>, \<^verbatim>\<open>float\<close>, the element type
    of a column, \<^verbatim>\<open>drop_duplicates\<close>, \<^verbatim>\<open>sort_values\<close>, \<^verbatim>\<open>shift\<close>, the accessor
    \<^verbatim>\<open>.dt\<close>) is modelled where it is used, with the behaviour of the library stated in
    the text before each definition.
\<close>

section \<open>Cells and exceptions\<close>

text \<open>The exceptions of Python that the program can meet.\<close>

datatype py_error = TypeError | AttributeError | ValueError | IndexError

text \<open>A cell of the frame that \<^verbatim>\<open>pd.read_csv\<close> returns: text, a number (a column
  of numerals only is read as numbers), or the missing value \<^verbatim>\<open>NaN\<close> of an empty
  cell, which is a float and not text.\<close>

datatype csv_value = Text string | Number real | Missing

section \<open>Characters and numerals\<close>

definition is_digit :: "char \<Rightarrow> bool" where
  "is_digit c = (c \<in> set ''0123456789'')"

text \<open>The code points up to \<^verbatim>\<open>U+00FF\<close> for which \<^verbatim>\<open>\s\<close> matches in a \<^verbatim>\<open>str\<close>
  pattern: space, \<^verbatim>\<open>\t \n \v \f \r\<close>, the separators \<^verbatim>\<open>\x1c\<close> to \<^verbatim>\<open>\x1f\<close>, the next
  line \<^verbatim>\<open>\x85\<close> and the no-break space \<^verbatim>\<open>\xa0\<close>. The digits of \<^verbatim>\<open>\d\<close> among these
  code points are \<^verbatim>\<open>0\<close> to \<^verbatim>\<open>9\<close>.\<close>

definition is_space :: "char \<Rightarrow> bool" where
  "is_space c = (c \<in> set [CHR '' '', CHR 0x09, CHR 0x0A, CHR 0x0B, CHR 0x0C,
                            CHR 0x0D, CHR 0x1C, CHR 0x1D, CHR 0x1E, CHR 0x1F,
                            CHR 0x85, CHR 0xA0])"

definition digit_val :: "char \<Rightarrow> nat" where
  "digit_val c = of_char c - 48"

definition int_of_digits :: "string \<Rightarrow> nat" where
  "int_of_digits ds = foldl (\<lambda>n c. 10 * n + digit_val c) 0 ds"

definition to_lower :: "char \<Rightarrow> char" where
  "to_lower c =
     (case map_of (zip ''ABCDEFGHIJKLMNOPQRSTUVWXYZ'' ''abcdefghijklmnopqrstuvwxyz'') c of
        Some l \<Rightarrow> l | None \<Rightarrow> c)"

fun index_of :: "'a \<Rightarrow> 'a list \<Rightarrow> nat option" where
  "index_of x [] = None"
| "index_of x (y # ys) = (if x = y then Some 0 else map_option Suc (index_of x ys))"

section \<open>Matching pieces of a regular expression\<close>

text \<open>A literal of the pattern: the rest of the text after it, or no match.\<close>

definition expect :: "string \<Rightarrow> string \<Rightarrow> string option" where
  "expect lit s = (if take (length lit) s = lit then Some (drop (length lit) s) else None)"

text \<open>\<^verbatim>\<open>\s+\<close> and \<^verbatim>\<open>\s*\<close>. Both are greedy; what follows them in the two patterns of the
  program never starts with white space, so the longest run is the only match.\<close>

definition spaces1 :: "string \<Rightarrow> string option" where
  "spaces1 s = (case s of [] \<Rightarrow> None | c # _ \<Rightarrow> if is_space c then Some (dropWhile is_space s) else None)"

definition spaces0 :: "string \<Rightarrow> string" where
  "spaces0 s = dropWhile is_space s"

section \<open>Timestamps\<close>

text \<open>Python's \<^verbatim>\<open>datetime\<close>: naive, microsecond resolution.\<close>

record datetime =
  year :: nat
  month :: nat
  day :: nat
  hour :: nat
  minute :: nat
  second :: nat
  microsecond :: nat

definition is_leap :: "nat \<Rightarrow> bool" where
  "is_leap y = (y mod 4 = 0 \<and> (y mod 100 \<noteq> 0 \<or> y mod 400 = 0))"

definition days_in_month :: "nat \<Rightarrow> nat \<Rightarrow> nat" where
  "days_in_month y m =
     (if m = 2 then (if is_leap y then 29 else 28)
      else if m \<in> {4, 6, 9, 11} then 30 else 31)"

definition days_before_year :: "nat \<Rightarrow> int" where
  "days_before_year y =
     (let y1 = int y - 1 in y1 * 365 + y1 div 4 - y1 div 100 + y1 div 400)"

text \<open>The number of days of the year before the first day of the month: the table
  \<^verbatim>\<open>_DAYS_BEFORE_MONTH\<close> of the library, and one more day after February of a leap
  year.\<close>

definition days_before_month :: "nat \<Rightarrow> nat \<Rightarrow> int" where
  "days_before_month y m =
     [0, 0, 31, 59, 90, 120, 151, 181, 212, 243, 273, 304, 334] ! m
       + (if 2 < m \<and> is_leap y then 1 else 0)"

text \<open>The proleptic Gregorian ordinal of a date (1 is 0001-01-01), as \<^verbatim>\<open>toordinal\<close>.\<close>

definition ymd2ord :: "nat \<Rightarrow> nat \<Rightarrow> nat \<Rightarrow> int" where
  "ymd2ord y m d = days_before_year y + days_before_month y m + int d"

text \<open>The instant of a \<open>datetime\<close> in microseconds since 0001-01-01T00:00:00. It is the
  value that orders the column \<^verbatim>\<open>parsed_timestamp\<close> and whose differences are the
  elapsed times.\<close>

definition instant :: "datetime \<Rightarrow> int" where
  "instant t =
     ((((ymd2ord (year t) (month t) (day t) - 1) * 24 + int (hour t)) * 60 + int (minute t)) * 60
        + int (second t)) * 1000000 + int (microsecond t)"

text \<open>The constructor \<^verbatim>\<open>datetime(year, month, day, hour, minute, second, microsecond)\<close>
  raises \<^verbatim>\<open>ValueError\<close> outside these ranges; \<open>None\<close> stands for that exception.\<close>

definition mk_datetime :: "nat \<Rightarrow> nat \<Rightarrow> nat \<Rightarrow> nat \<Rightarrow> nat \<Rightarrow> nat \<Rightarrow> nat \<Rightarrow> datetime option" where
  "mk_datetime y m d h mi s us =
     (if 1 \<le> y \<and> y \<le> 9999 \<and> 1 \<le> m \<and> m \<le> 12 \<and> 1 \<le> d \<and> d \<le> days_in_month y m
         \<and> h \<le> 23 \<and> mi \<le> 59 \<and> s \<le> 59 \<and> us \<le> 999999
      then Some \<lparr>year = y, month = m, day = d, hour = h, minute = mi, second = s, microsecond = us\<rparr>
      else None)"

text \<open>
  \<^verbatim>\<open>datetime.strptime(s, '%b %d, %Y @ %H:%M:%S.%f')\<close>. The library turns the format
  into the regular expression below (case-insensitive, with every run of white space
  of the format replaced by \<^verbatim>\<open>\s+\<close>), matches it at the start of the text and raises
  \<^verbatim>\<open>ValueError\<close> when it does not match or when text remains after the match:
  \<^verbatim>\<open>
  (?P<b>jan|feb|mar|apr|may|jun|jul|aug|sep|oct|nov|dec)\s+
  (?P<d>3[0-1]|[1-2]\d|0[1-9]|[1-9]| [1-9]),\s+(?P<Y>\d\d\d\d)\s+@\s+
  (?P<H>2[0-3]|[0-1]\d|\d):(?P<M>[0-5]\d|\d):(?P<S>6[0-1]|[0-5]\d|\d)\.(?P<f>[0-9]{1,6})
  \<close>
  (month names of the C locale). Every numeric group is followed by a character that is
  not a digit, or by the end of the text, so a group can only match the whole run of digits at
  its place: the run is taken at once and checked against the group's alternatives.
\<close>

definition a_month :: "string list" where
  "a_month = [''jan'', ''feb'', ''mar'', ''apr'', ''may'', ''jun'',
              ''jul'', ''aug'', ''sep'', ''oct'', ''nov'', ''dec'']"

text \<open>\<^verbatim>\<open>%b\<close>: the number of the month, and the rest of the text.\<close>

definition field_b :: "string \<Rightarrow> (nat \<times> string) option" where
  "field_b s = map_option (\<lambda>i. (Suc i, drop 3 s)) (index_of (map to_lower (take 3 s)) a_month)"

text \<open>A numeric group: the run of digits, accepted when it has between \<open>lo\<close> and \<open>hi\<close>
  digits and its value satisfies \<open>ok\<close>.\<close>

definition field_num :: "nat \<Rightarrow> nat \<Rightarrow> (nat \<Rightarrow> bool) \<Rightarrow> string \<Rightarrow> (string \<times> string) option" where
  "field_num lo hi ok s =
     (let ds = takeWhile is_digit s in
      if lo \<le> length ds \<and> length ds \<le> hi \<and> ok (int_of_digits ds)
      then Some (ds, dropWhile is_digit s) else None)"

definition field_d :: "string \<Rightarrow> (string \<times> string) option" where
  "field_d = field_num 1 2 (\<lambda>n. 1 \<le> n \<and> n \<le> 31)"

definition field_Y :: "string \<Rightarrow> (string \<times> string) option" where
  "field_Y = field_num 4 4 (\<lambda>n. True)"

definition field_H :: "string \<Rightarrow> (string \<times> string) option" where
  "field_H = field_num 1 2 (\<lambda>n. n \<le> 23)"

definition field_M :: "string \<Rightarrow> (string \<times> string) option" where
  "field_M = field_num 1 2 (\<lambda>n. n \<le> 59)"

definition field_S :: "string \<Rightarrow> (string \<times> string) option" where
  "field_S = field_num 1 2 (\<lambda>n. n \<le> 61)"

definition field_f :: "string \<Rightarrow> (string \<times> string) option" where
  "field_f = field_num 1 6 (\<lambda>n. True)"

text \<open>The fraction is padded with zeros on the right to six digits.\<close>

definition fraction_us :: "string \<Rightarrow> nat" where
  "fraction_us f = int_of_digits (take 6 (f @ ''000000''))"

definition strptime :: "string \<Rightarrow> datetime option" where
  "strptime s = do {
     (b, s1) \<leftarrow> field_b s;
     s2 \<leftarrow> spaces1 s1;
     (d, s3) \<leftarrow> field_d s2;
     s4 \<leftarrow> expect '','' s3;
     s5 \<leftarrow> spaces1 s4;
     (Y, s6) \<leftarrow> field_Y s5;
     s7 \<leftarrow> spaces1 s6;
     s8 \<leftarrow> expect ''@'' s7;
     s9 \<leftarrow> spaces1 s8;
     (H, s10) \<leftarrow> field_H s9;
     s11 \<leftarrow> expect '':'' s10;
     (M, s12) \<leftarrow> field_M s11;
     s13 \<leftarrow> expect '':'' s12;
     (S, s14) \<leftarrow> field_S s13;
     s15 \<leftarrow> expect ''.'' s14;
     (f, s16) \<leftarrow> field_f s15;
     if s16 \<noteq> [] then None
     else mk_datetime (int_of_digits Y) b (int_of_digits d) (int_of_digits H)
            (int_of_digits M) (int_of_digits S) (fraction_us f)
   }"

text \<open>\<^verbatim>\<open>parse_timestamp\<close> catches the \<^verbatim>\<open>ValueError\<close> of a text that does not
  match and returns \<^verbatim>\<open>None\<close>. On a cell that is not text \<^verbatim>\<open>strptime\<close> raises
  \<^verbatim>\<open>TypeError\<close> (argument 1 must be str), which the \<^verbatim>\<open>except ValueError\<close> of line
  34 does not catch: the exception leaves the function.\<close>

definition parse_timestamp :: "csv_value \<Rightarrow> py_error + datetime option" where
  "parse_timestamp timestamp_str =
     (case timestamp_str of
        Text s \<Rightarrow> Inr (strptime s)
      | _ \<Rightarrow> Inl TypeError)"

section \<open>Positions\<close>

text \<open>The class \<^verbatim>\<open>[-\d.]\<close> of the pattern in \<^verbatim>\<open>extract_coordinates\<close>.\<close>

definition is_num_char :: "char \<Rightarrow> bool" where
  "is_num_char c = (c = CHR ''-'' \<or> is_digit c \<or> c = CHR ''.'')"

text \<open>The group \<^verbatim>\<open>([-\d.]+)\<close>. What follows it in the pattern (\<^verbatim>\<open>\s+\<close>, or \<^verbatim>\<open>\s*\)\<close>)
  cannot start with a character of the class, so the longest run is the only match.\<close>

definition group_num :: "string \<Rightarrow> (string \<times> string) option" where
  "group_num s =
     (let g = takeWhile is_num_char s in if g = [] then None else Some (g, dropWhile is_num_char s))"

text \<open>\<^verbatim>\<open>re.match(r'POINT\s*\(\s*([-\d.]+)\s+([-\d.]+)\s*\)', position_str)\<close>: the two
  groups, or no match. \<^verbatim>\<open>re.match\<close> anchors the pattern at the start of the text only;
  what follows the closing parenthesis is not looked at.\<close>

definition match_point :: "string \<Rightarrow> (string \<times> string) option" where
  "match_point s = do {
     s1 \<leftarrow> expect ''POINT'' s;
     s2 \<leftarrow> expect ''('' (spaces0 s1);
     (g1, s3) \<leftarrow> group_num (spaces0 s2);
     s4 \<leftarrow> spaces1 s3;
     (g2, s5) \<leftarrow> group_num s4;
     _ \<leftarrow> expect '')'' (spaces0 s5);
     Some (g1, g2)
   }"

text \<open>\<^verbatim>\<open>float(g)\<close> on a text \<open>g\<close> over the class \<^verbatim>\<open>[-\d.]\<close>, which is all that the
  program passes to it: an optional minus sign, then digits with at most one point and
  at least one digit. \<open>None\<close> stands for the \<^verbatim>\<open>ValueError\<close> of any other text. The value
  is the decimal number that the text denotes.\<close>

definition py_float :: "string \<Rightarrow> real option" where
  "py_float g =
     (let neg = (take 1 g = ''-'');
          body = (if neg then drop 1 g else g);
          ip = takeWhile is_digit body;
          rest = dropWhile is_digit body;
          fp = drop 1 rest;
          sgn = (if neg then - 1 else 1)
      in if rest = [] then (if ip = [] then None else Some (sgn * real (int_of_digits ip)))
         else if take 1 rest = ''.'' \<and> list_all is_digit fp \<and> (ip \<noteq> [] \<or> fp \<noteq> [])
         then Some (sgn * (real (int_of_digits ip) + real (int_of_digits fp) / 10 ^ length fp))
         else None)"

text \<open>\<^verbatim>\<open>extract_coordinates\<close>: every exception (no match, a group that is not a
  number, the \<^verbatim>\<open>TypeError\<close> of \<^verbatim>\<open>re.match\<close> on a cell that is not text) is caught by
  the \<^verbatim>\<open>except Exception\<close> of line 46 and turned into \<^verbatim>\<open>None\<close>. The groups are
  longitude then latitude; the result is the list \<^verbatim>\<open>[lat, lon]\<close>.\<close>

definition extract_coordinates :: "csv_value \<Rightarrow> real list option" where
  "extract_coordinates position_str =
     (case position_str of
        Text s \<Rightarrow> do {
          (g1, g2) \<leftarrow> match_point s;
          lon \<leftarrow> py_float g1;
          lat \<leftarrow> py_float g2;
          Some [lat, lon]
        }
      | _ \<Rightarrow> None)"

section \<open>Haversine distance\<close>

definition radians :: "real \<Rightarrow> real" where
  "radians x = x * pi / 180"

text \<open>\<^verbatim>\<open>math.sqrt\<close> raises \<^verbatim>\<open>ValueError\<close> (math domain error) below zero.\<close>

definition py_sqrt :: "real \<Rightarrow> py_error + real" where
  "py_sqrt x = (if x < 0 then Inl ValueError else Inr (sqrt x))"

text \<open>\<^verbatim>\<open>math.atan2(y, x)\<close>: the angle of the point \<open>(x, y)\<close>, in \<open>(-\<pi>, \<pi>]\<close>.\<close>

definition atan2 :: "real \<Rightarrow> real \<Rightarrow> real" where
  "atan2 y x =
     (if 0 < x then arctan (y / x)
      else if x < 0 then (if 0 \<le> y then arctan (y / x) + pi else arctan (y / x) - pi)
      else if 0 < y then pi / 2
      else if y < 0 then - (pi / 2)
      else 0)"

text \<open>The term \<^verbatim>\<open>a\<close> of the source. Over the real numbers it lies between 0 and 1
  (lemma \<open>hav_a_bounds\<close>), so neither square root of \<open>haversine\<close> raises. In floating
  point the sum can round to a value just above 1 for points that are nearly opposite on
  the globe (latitudes -87.5 and 87.5, longitudes 0 and 180 give 1.0000000000000002);
  then \<^verbatim>\<open>math.sqrt(1 - a)\<close> of line 74 raises \<^verbatim>\<open>ValueError\<close>. This is outside the
  model: every statement about \<open>haversine\<close> below is one of exact arithmetic.\<close>

definition hav_a :: "real \<Rightarrow> real \<Rightarrow> real \<Rightarrow> real \<Rightarrow> real" where
  "hav_a lat1 lon1 lat2 lon2 =
     (let lat1_rad = radians lat1;
          lon1_rad = radians lon1;
          lat2_rad = radians lat2;
          lon2_rad = radians lon2;
          dlat = lat2_rad - lat1_rad;
          dlon = lon2_rad - lon1_rad
      in (sin (dlat / 2))\<^sup>2 + cos lat1_rad * cos lat2_rad * (sin (dlon / 2))\<^sup>2)"

definition haversine :: "real \<Rightarrow> real \<Rightarrow> real \<Rightarrow> real \<Rightarrow> py_error + real" where
  "haversine lat1 lon1 lat2 lon2 =
     (let R = 6371;
          a = hav_a lat1 lon1 lat2 lon2
      in case py_sqrt a of
           Inl e \<Rightarrow> Inl e
         | Inr sa \<Rightarrow>
             (case py_sqrt (1 - a) of
                Inl e \<Rightarrow> Inl e
              | Inr sb \<Rightarrow> (let c = 2 * atan2 sa sb; distance = R * c in Inr distance)))"

section \<open>Formatting the speed\<close>

definition digit_char :: "nat \<Rightarrow> char" where
  "digit_char n = ''0123456789'' ! (n mod 10)"

function str_nat :: "nat \<Rightarrow> string" where
  "str_nat n = (if n < 10 then [digit_char n] else str_nat (n div 10) @ [digit_char n])"
  by pat_completeness auto
termination
  by (relation "measure id") auto

declare str_nat.simps [simp del]

text \<open>The rounding of \<^verbatim>\<open>format\<close>: to the nearest integer, a tie to the even one.\<close>

definition round_half_even :: "real \<Rightarrow> int" where
  "round_half_even x =
     (let f = \<lfloor>x\<rfloor>; d = x - of_int f
      in if d < 1 / 2 then f else if 1 / 2 < d then f + 1 else if even f then f else f + 1)"

text \<open>\<^verbatim>\<open>f"{x:.2f}"\<close> of a real number.\<close>

definition format_2f :: "real \<Rightarrow> string" where
  "format_2f x =
     (let n = nat (round_half_even (\<bar>x\<bar> * 100))
      in (if x < 0 then ''-'' else []) @ str_nat (n div 100) @ ''.''
           @ [digit_char (n div 10), digit_char n])"

section \<open>Frames\<close>

text \<open>A row of the input frame, with the four columns of the specification.\<close>

record raw_row =
  timestamp :: csv_value
  position :: csv_value
  country_code :: csv_value
  route_id :: csv_value

text \<open>A row once the columns \<^verbatim>\<open>parsed_timestamp\<close> and \<^verbatim>\<open>coords\<close> are there and the
  rows without them are dropped. \<^verbatim>\<open>coords\<close> holds a Python list.\<close>

record point =
  raw :: raw_row
  parsed_timestamp :: datetime
  coords :: "real list"

text \<open>A row of the frame that \<^verbatim>\<open>process_data\<close> returns.\<close>

record traj_point = point +
  sequence :: int
  distance_km :: real
  avg_speed_kmh :: string

text \<open>
  The element type of the column \<^verbatim>\<open>parsed_timestamp\<close>. \<^verbatim>\<open>Series.apply\<close> builds the
  column from the values that \<^verbatim>\<open>parse_timestamp\<close> returns: with at least one
  \<^verbatim>\<open>datetime\<close> among them the column is \<^verbatim>\<open>datetime64[ns]\<close> (a \<^verbatim>\<open>None\<close> becomes
  \<^verbatim>\<open>NaT\<close>); a column of \<^verbatim>\<open>None\<close> only, and the result of \<^verbatim>\<open>apply\<close> on a column
  without rows, stay \<^verbatim>\<open>object\<close>. \<^verbatim>\<open>dropna\<close> keeps the element type.
\<close>

datatype dtype = Object | Datetime64

definition series_dtype :: "datetime option list \<Rightarrow> dtype" where
  "series_dtype vs = (if list_ex (\<lambda>v. v \<noteq> None) vs then Datetime64 else Object)"

text \<open>Lines 81 to 86 when no call of \<^verbatim>\<open>parse_timestamp\<close> raises: both columns are
  computed and the rows where one of them is \<^verbatim>\<open>None\<close> are dropped.\<close>

definition parse_rows :: "raw_row list \<Rightarrow> point list" where
  "parse_rows df =
     List.map_filter
       (\<lambda>(r, t). map_option (\<lambda>c. \<lparr>raw = r, parsed_timestamp = t, coords = c\<rparr>)
                   (extract_coordinates (position r)))
       (List.map_filter
          (\<lambda>r. case parse_timestamp (timestamp r) of
                  Inr (Some t) \<Rightarrow> Some (r, t)
                | _ \<Rightarrow> None) df)"

text \<open>The keys by which \<open>process_data\<close> sorts: the instants of the rows that survive.\<close>

definition sort_keys :: "raw_row list \<Rightarrow> int list" where
  "sort_keys df = map (\<lambda>p. instant (parsed_timestamp p)) (parse_rows df)"

text \<open>
  \<^verbatim>\<open>df.drop_duplicates()\<close> returns a frame without rows as it is. Otherwise it
  hashes the values of every column to find equal rows, and keeps the first row of each
  class. A Python list has no hash: the attempt raises \<^verbatim>\<open>TypeError\<close> (unhashable
  type: 'list').
\<close>

datatype cell = Csv csv_value | Timestamp datetime | PyList "real list"

fun hashable :: "cell \<Rightarrow> bool" where
  "hashable (Csv _) = True"
| "hashable (Timestamp _) = True"
| "hashable (PyList _) = False"

definition cells :: "point \<Rightarrow> cell list" where
  "cells p =
     [Csv (timestamp (raw p)), Csv (position (raw p)), Csv (country_code (raw p)),
      Csv (route_id (raw p)), Timestamp (parsed_timestamp p), PyList (coords p)]"

fun keep_first :: "'a list \<Rightarrow> 'a list \<Rightarrow> 'a list" where
  "keep_first seen [] = []"
| "keep_first seen (x # xs) =
     (if x \<in> set seen then keep_first seen xs else x # keep_first (x # seen) xs)"

definition drop_duplicates :: "point list \<Rightarrow> py_error + point list" where
  "drop_duplicates df =
     (if df = [] then Inr df
      else if list_ex (\<lambda>p. list_ex (\<lambda>c. \<not> hashable c) (cells p)) df then Inl TypeError
      else Inr (keep_first [] df))"

text \<open>
  \<^verbatim>\<open>df.sort_values('parsed_timestamp').reset_index(drop=True)\<close>. With one sort
  column and the default \<^verbatim>\<open>kind='quicksort'\<close>, pandas asks numpy for the positions
  that sort the keys (\<^verbatim>\<open>argsort\<close>) and takes the rows at these positions. The sorting
  routine is not part of the program, so it is the parameter \<open>argsort\<close> here; the last
  section models the routine of the library, \<open>np_argsort\<close>. \<open>argsort_ok argsort ks\<close> is
  what the library promises of the routine on the keys \<open>ks\<close>: a permutation of the
  positions that puts the keys in non-decreasing order. Nothing is promised about equal
  keys for this \<^verbatim>\<open>kind\<close>.
\<close>

definition sort_values :: "(int list \<Rightarrow> nat list) \<Rightarrow> point list \<Rightarrow> point list" where
  "sort_values argsort df = map (\<lambda>i. df ! i) (argsort (map (\<lambda>p. instant (parsed_timestamp p)) df))"

definition argsort_ok :: "(int list \<Rightarrow> nat list) \<Rightarrow> int list \<Rightarrow> bool" where
  "argsort_ok argsort ks =
     (mset (argsort ks) = mset [0..<length ks] \<and> sorted (map (\<lambda>i. ks ! i) (argsort ks)))"

text \<open>\<^verbatim>\<open>Series.apply\<close> and \<^verbatim>\<open>DataFrame.apply(..., axis=1)\<close>: the function is called row
  after row, and the first exception ends the run.\<close>

fun series_apply :: "('a \<Rightarrow> py_error + 'b) \<Rightarrow> 'a list \<Rightarrow> py_error + 'b list" where
  "series_apply f [] = Inr []"
| "series_apply f (x # xs) =
     (case f x of
        Inl e \<Rightarrow> Inl e
      | Inr y \<Rightarrow> (case series_apply f xs of Inl e \<Rightarrow> Inl e | Inr ys \<Rightarrow> Inr (y # ys)))"

text \<open>\<^verbatim>\<open>x[i]\<close> on a list.\<close>

definition item :: "'a list \<Rightarrow> nat \<Rightarrow> py_error + 'a" where
  "item xs i = (if i < length xs then Inr (xs ! i) else Inl IndexError)"

text \<open>\<^verbatim>\<open>Series.shift(1)\<close>: every value moves one row down; the first row gets the
  missing value (\<^verbatim>\<open>NaN\<close>, \<^verbatim>\<open>NaT\<close>), which is \<open>None\<close> here.\<close>

definition shift1 :: "'a list \<Rightarrow> 'a option list" where
  "shift1 xs = (if xs = [] then [] else None # map Some (butlast xs))"

text \<open>Line 106 for one row: the difference of the two instants in seconds, over 3600. A
  missing predecessor gives a missing value.\<close>

definition time_diff_hours_of :: "datetime \<Rightarrow> datetime option \<Rightarrow> real option" where
  "time_diff_hours_of t prev_time =
     map_option (\<lambda>q. real_of_int (instant t - instant q) / 1000000 / 3600) prev_time"

text \<open>\<^verbatim>\<open>calculate_distance\<close>, on the three entries of the row that it reads.\<close>

definition calculate_distance :: "real option \<Rightarrow> real option \<Rightarrow> real list \<Rightarrow> py_error + real" where
  "calculate_distance prev_lat prev_lon cs =
     (if prev_lat = None \<or> prev_lon = None then Inr 0
      else (case cs of
              [lat2, lon2] \<Rightarrow> haversine (the prev_lat) (the prev_lon) lat2 lon2
            | _ \<Rightarrow> Inl ValueError))"

text \<open>\<^verbatim>\<open>calculate_avg_speed\<close>, on the three entries of the row that it reads. A
  comparison with \<^verbatim>\<open>NaN\<close> is false, and a quotient by \<^verbatim>\<open>NaN\<close> prints as \<^verbatim>\<open>nan\<close>.\<close>

definition calculate_avg_speed :: "int \<Rightarrow> real option \<Rightarrow> real \<Rightarrow> string" where
  "calculate_avg_speed seq time_diff_hours dkm =
     (if seq = 1 then ''N/A''
      else (case time_diff_hours of
              None \<Rightarrow> ''nan km/h''
            | Some h \<Rightarrow> if h \<le> 0 then ''N/A'' else (let speed = dkm / h in format_2f speed @ '' km/h'')))"

text \<open>
  Lines 95 to 130 on the sorted frame \<open>df\<close>, whose column \<^verbatim>\<open>parsed_timestamp\<close> has the
  element type \<open>ts_dtype\<close>. The accessor \<^verbatim>\<open>.dt\<close> of line 106 exists for a column of
  instants or durations only: on a column of element type \<^verbatim>\<open>object\<close> it raises
  \<^verbatim>\<open>AttributeError\<close>. The difference of two \<^verbatim>\<open>object\<close> columns is an \<^verbatim>\<open>object\<close>
  column.
\<close>

definition enrich :: "dtype \<Rightarrow> point list \<Rightarrow> py_error + traj_point list" where
  "enrich ts_dtype df =
     (let seqs = map (\<lambda>i. int i + 1) [0..<length df] in
      case series_apply (\<lambda>p. item (coords p) 0) df of
        Inl e \<Rightarrow> Inl e
      | Inr lats \<Rightarrow>
      (case series_apply (\<lambda>p. item (coords p) 1) df of
        Inl e \<Rightarrow> Inl e
      | Inr lons \<Rightarrow>
      (let prev_lat = shift1 lats;
           prev_lon = shift1 lons;
           prev_time = shift1 (map parsed_timestamp df)
       in if ts_dtype = Object then Inl AttributeError
          else
      (let time_diff_hours = map2 (\<lambda>p q. time_diff_hours_of (parsed_timestamp p) q) df prev_time
       in case series_apply (\<lambda>(a, b, p). calculate_distance a b (coords p))
                 (zip prev_lat (zip prev_lon df)) of
            Inl e \<Rightarrow> Inl e
          | Inr dists \<Rightarrow>
            Inr (map (\<lambda>(p, s, h, d).
                        \<lparr>raw = raw p, parsed_timestamp = parsed_timestamp p, coords = coords p,
                         sequence = s, distance_km = d,
                         avg_speed_kmh = calculate_avg_speed s h d\<rparr>)
                     (zip df (zip seqs (zip time_diff_hours dists))))))))"

text \<open>\<^verbatim>\<open>process_data\<close>. Line 81 applies \<^verbatim>\<open>parse_timestamp\<close> to the column
  \<^verbatim>\<open>timestamp\<close>; an exception that leaves \<^verbatim>\<open>parse_timestamp\<close> ends the run there.\<close>

definition process_data ::
    "(int list \<Rightarrow> nat list) \<Rightarrow> raw_row list \<Rightarrow> bool \<Rightarrow> py_error + traj_point list" where
  "process_data argsort df remove_duplicates =
     (case series_apply parse_timestamp (map timestamp df) of
        Inl e \<Rightarrow> Inl e
      | Inr parsed \<Rightarrow>
          (let ts_dtype = series_dtype parsed;
               df2 = parse_rows df
           in case (if remove_duplicates then drop_duplicates df2 else Inr df2) of
                Inl e \<Rightarrow> Inl e
              | Inr df3 \<Rightarrow> enrich ts_dtype (sort_values argsort df3)))"

text \<open>\<^verbatim>\<open>create_map\<close>: a frame without rows is reported (\<^verbatim>\<open>No data available to plot.\<close>)
  and nothing is drawn; the drawing itself is not modelled.\<close>

datatype map_result = No_data_available | Map_drawn "traj_point list"

definition create_map :: "traj_point list \<Rightarrow> map_result" where
  "create_map df = (if df = [] then No_data_available else Map_drawn df)"

text \<open>\<^verbatim>\<open>main\<close> after the file is read.\<close>

definition main :: "(int list \<Rightarrow> nat list) \<Rightarrow> raw_row list \<Rightarrow> bool \<Rightarrow> py_error + map_result" where
  "main argsort df remove_duplicates =
     (case process_data argsort df remove_duplicates of
        Inl e \<Rightarrow> Inl e
      | Inr processed_df \<Rightarrow> Inr (create_map processed_df))"

section \<open>The rows of the result\<close>

text \<open>The value that \<open>haversine\<close> returns (lemma \<open>haversine_Inr\<close>).\<close>

definition great_circle_km :: "real \<Rightarrow> real \<Rightarrow> real \<Rightarrow> real \<Rightarrow> real" where
  "great_circle_km lat1 lon1 lat2 lon2 =
     6371 * (2 * atan2 (sqrt (hav_a lat1 lon1 lat2 lon2)) (sqrt (1 - hav_a lat1 lon1 lat2 lon2)))"

text \<open>Row \<open>i\<close> of the frame that \<open>enrich\<close> returns, from rows \<open>i\<close> and \<open>i - 1\<close> of the
  sorted frame (lemma \<open>enrich_wf\<close>).\<close>

definition traj_at :: "point list \<Rightarrow> nat \<Rightarrow> traj_point" where
  "traj_at df i =
     (let p = df ! i;
          q = df ! (i - 1);
          d = (if i = 0 then 0
               else great_circle_km (coords q ! 0) (coords q ! 1) (coords p ! 0) (coords p ! 1));
          h = (if i = 0 then None
               else Some (real_of_int (instant (parsed_timestamp p) - instant (parsed_timestamp q))
                          / 1000000 / 3600))
      in \<lparr>raw = raw p, parsed_timestamp = parsed_timestamp p, coords = coords p,
          sequence = int i + 1, distance_km = d,
          avg_speed_kmh = calculate_avg_speed (int i + 1) h d\<rparr>)"

section \<open>An example frame\<close>

text \<open>Three rows: the last two share every field, and the first is the latest.\<close>

definition demo_rows :: "raw_row list" where
  "demo_rows =
     [\<lparr>timestamp = Text ''Jun 28, 2024 @ 13:59:38.831'', position = Text ''POINT (0 0)'',
       country_code = Text ''US'', route_id = Number 7\<rparr>,
      \<lparr>timestamp = Text ''Jun 28, 2024 @ 12:59:38.831'', position = Text ''POINT (90 0)'',
       country_code = Text ''US'', route_id = Number 7\<rparr>,
      \<lparr>timestamp = Text ''Jun 28, 2024 @ 12:59:38.831'', position = Text ''POINT (90 0)'',
       country_code = Text ''US'', route_id = Number 7\<rparr>]"

section \<open>The grammars of the specification\<close>

text \<open>A signed decimal number: an optional minus sign, then digits with at most one
  point among them, and at least one digit.\<close>

definition signed_decimal :: "string \<Rightarrow> bool" where
  "signed_decimal g =
     (let body = (if take 1 g = ''-'' then drop 1 g else g)
      in list_all (\<lambda>c. is_digit c \<or> c = CHR ''.'') body
         \<and> length (filter (\<lambda>c. c = CHR ''.'') body) \<le> 1
         \<and> list_ex is_digit body)"

text \<open>The grammar of a position in the words of the specification: \<^verbatim>\<open>POINT (<lon> <lat>)\<close>
  with two signed decimal numbers separated by white space.\<close>

definition point_grammar :: "string \<Rightarrow> bool" where
  "point_grammar s =
     (\<exists>g1 w g2. s = ''POINT ('' @ g1 @ w @ g2 @ '')''
        \<and> signed_decimal g1 \<and> signed_decimal g2 \<and> w \<noteq> [] \<and> list_all is_space w)"

text \<open>The texts that start with a position, with optional white space before the opening
  parenthesis and inside the parentheses, and with any text after the closing one.\<close>

definition point_prefix_grammar :: "string \<Rightarrow> bool" where
  "point_prefix_grammar s =
     (\<exists>w0 w1 g1 w2 g2 w3 rest.
        s = ''POINT'' @ w0 @ ''('' @ w1 @ g1 @ w2 @ g2 @ w3 @ '')'' @ rest
        \<and> list_all is_space w0 \<and> list_all is_space w1
        \<and> w2 \<noteq> [] \<and> list_all is_space w2 \<and> list_all is_space w3
        \<and> signed_decimal g1 \<and> signed_decimal g2)"



section \<open>The sorting routine of the library\<close>

text \<open>
  \<^verbatim>\<open>sort_values\<close> with the default \<^verbatim>\<open>kind='quicksort'\<close> on a column of instants ends in
  numpy's \<^verbatim>\<open>aquicksort\<close> for that element type: an introsort on the array \<open>tosort\<close> of
  positions, which starts as \<open>0, 1, \<dots>, num - 1\<close>. It partitions around the median of three
  while a range has more than \<^verbatim>\<open>SMALL_QUICKSORT = 15\<close> positions beyond its first, sorts a
  smaller range by insertion, keeps the larger part of a partition on a stack, and sorts
  a range from the stack by heapsort once the depth \<open>2 \<cdot> \<lfloor>log\<^sub>2 num\<rfloor>\<close> is used up. The model
  follows the routine statement by statement (\<open>ptr_i\<close> and \<open>ptr_j\<close> are its \<^verbatim>\<open>pi\<close> and
  \<^verbatim>\<open>pj\<close>). A pointer into \<open>tosort\<close> is the integer of its
  offset; the tests \<open>0 \<le> i\<close> and \<open>i < length tosort\<close> in the two scans stand for the ends of
  the array, which the sentinels of the partition keep the scans from passing.
\<close>

definition deref :: "'a list \<Rightarrow> int \<Rightarrow> 'a" where
  "deref xs i = xs ! nat i"

definition store :: "'a list \<Rightarrow> int \<Rightarrow> 'a \<Rightarrow> 'a list" where
  "store xs i x = xs[nat i := x]"

text \<open>\<^verbatim>\<open>INTP_SWAP(*p, *q)\<close>.\<close>

definition intp_swap :: "nat list \<Rightarrow> int \<Rightarrow> int \<Rightarrow> nat list" where
  "intp_swap t p q = store (store t p (deref t q)) q (deref t p)"

text \<open>\<^verbatim>\<open>do { ++pi; } while (less(v[*pi], vp));\<close>\<close>

function scan_up :: "int list \<Rightarrow> nat list \<Rightarrow> int \<Rightarrow> int \<Rightarrow> int" where
  "scan_up v t vp ptr_i =
     (if 0 \<le> ptr_i + 1 \<and> ptr_i + 1 < int (length t) \<and> v ! deref t (ptr_i + 1) < vp
      then scan_up v t vp (ptr_i + 1) else ptr_i + 1)"
  by pat_completeness auto
termination
  by (relation "measure (\<lambda>(v, t, vp, ptr_i). nat (int (length t) - ptr_i))") auto

text \<open>\<^verbatim>\<open>do { --pj; } while (less(vp, v[*pj]));\<close>\<close>

function scan_down :: "int list \<Rightarrow> nat list \<Rightarrow> int \<Rightarrow> int \<Rightarrow> int" where
  "scan_down v t vp ptr_j =
     (if 0 \<le> ptr_j - 1 \<and> ptr_j - 1 < int (length t) \<and> vp < v ! deref t (ptr_j - 1)
      then scan_down v t vp (ptr_j - 1) else ptr_j - 1)"
  by pat_completeness auto
termination
  by (relation "measure (\<lambda>(v, t, vp, ptr_j). nat ptr_j)") auto

declare scan_up.simps [simp del] scan_down.simps [simp del]

text \<open>The loop \<^verbatim>\<open>for (;;)\<close> of the partition, bounded by \<open>fuel\<close> rounds: the array and
  \<^verbatim>\<open>pi\<close> when the loop is left. Every round but the last moves \<^verbatim>\<open>pi\<close> up and \<^verbatim>\<open>pj\<close>
  down, so the rounds are fewer than the length of the array.\<close>

fun partition_loop :: "nat \<Rightarrow> int list \<Rightarrow> nat list \<Rightarrow> int \<Rightarrow> int \<Rightarrow> int \<Rightarrow> (nat list \<times> int) option" where
  "partition_loop 0 v t vp ptr_i ptr_j = None"
| "partition_loop (Suc fuel) v t vp ptr_i ptr_j =
     (if scan_down v t vp ptr_j \<le> scan_up v t vp ptr_i then Some (t, scan_up v t vp ptr_i)
      else partition_loop fuel v
             (intp_swap t (scan_up v t vp ptr_i) (scan_down v t vp ptr_j)) vp
             (scan_up v t vp ptr_i) (scan_down v t vp ptr_j))"

text \<open>One partition of the range from \<open>pl\<close> to \<open>pr\<close>: the array and the place of the
  pivot.\<close>

definition median_of_three :: "int list \<Rightarrow> nat list \<Rightarrow> int \<Rightarrow> int \<Rightarrow> int \<Rightarrow> nat list" where
  "median_of_three v t pl pm pr =
     (let t1 = (if v ! deref t pm < v ! deref t pl then intp_swap t pm pl else t);
          t2 = (if v ! deref t1 pr < v ! deref t1 pm then intp_swap t1 pr pm else t1)
      in if v ! deref t2 pm < v ! deref t2 pl then intp_swap t2 pm pl else t2)"

definition partition_range :: "int list \<Rightarrow> nat list \<Rightarrow> int \<Rightarrow> int \<Rightarrow> (nat list \<times> int) option" where
  "partition_range v t pl pr =
     (let pm = pl + (pr - pl) div 2;
          t3 = median_of_three v t pl pm pr;
          vp = v ! deref t3 pm;
          t4 = intp_swap t3 pm (pr - 1)
      in map_option (\<lambda>(t5, ptr_i). (intp_swap t5 ptr_i (pr - 1), ptr_i))
           (partition_loop (length t) v t4 vp pl (pr - 1)))"

text \<open>The insertion sort of the range from \<open>pl\<close> to \<open>pr\<close>: the inner loop moves the
  positions with a greater key one place up and writes \<open>vi\<close> into the gap.\<close>

function insert_down :: "int list \<Rightarrow> nat list \<Rightarrow> nat \<Rightarrow> int \<Rightarrow> int \<Rightarrow> nat list" where
  "insert_down v t vi pl ptr_j =
     (if pl < ptr_j \<and> v ! vi < v ! deref t (ptr_j - 1)
      then insert_down v (store t ptr_j (deref t (ptr_j - 1))) vi pl (ptr_j - 1)
      else store t ptr_j vi)"
  by pat_completeness auto
termination
  by (relation "measure (\<lambda>(v, t, vi, pl, ptr_j). nat (ptr_j - pl))") auto

function insertion_sort :: "int list \<Rightarrow> nat list \<Rightarrow> int \<Rightarrow> int \<Rightarrow> int \<Rightarrow> nat list" where
  "insertion_sort v t pl pr ptr_i =
     (if ptr_i \<le> pr then insertion_sort v (insert_down v t (deref t ptr_i) pl ptr_i) pl pr (ptr_i + 1) else t)"
  by pat_completeness auto
termination
  by (relation "measure (\<lambda>(v, t, pl, pr, ptr_i). nat (pr + 1 - ptr_i))") auto

declare insert_down.simps [simp del] insertion_sort.simps [simp del]

text \<open>\<^verbatim>\<open>aheapsort\<close> on the \<open>n\<close> positions from \<open>pl\<close> on. The array \<^verbatim>\<open>a\<close> of the routine
  is \<open>tosort\<close> seen from one place before \<open>pl\<close>, so that \<^verbatim>\<open>a[k]\<close> is at offset
  \<open>pl + k - 1\<close>. \<open>sift\<close> is the inner loop that both phases share: it moves \<open>tmp\<close> down
  from place \<open>i\<close> in the heap of the first \<open>n\<close> places.\<close>

function sift :: "int list \<Rightarrow> nat list \<Rightarrow> int \<Rightarrow> nat \<Rightarrow> int \<Rightarrow> int \<Rightarrow> int \<Rightarrow> nat list" where
  "sift v t pl tmp n i j =
     (if 0 < j \<and> j \<le> n then
        (let j' = (if j < n \<and> v ! deref t (pl + j - 1) < v ! deref t (pl + j) then j + 1 else j)
         in if v ! tmp < v ! deref t (pl + j' - 1)
            then sift v (store t (pl + i - 1) (deref t (pl + j' - 1))) pl tmp n j' (j' + j')
            else store t (pl + i - 1) tmp)
      else store t (pl + i - 1) tmp)"
  by pat_completeness auto
termination
  by (relation "measure (\<lambda>(v, t, pl, tmp, n, i, j). nat (n + 1 - j))") auto

function heapify :: "int list \<Rightarrow> nat list \<Rightarrow> int \<Rightarrow> int \<Rightarrow> int \<Rightarrow> nat list" where
  "heapify v t pl n l =
     (if 0 < l then heapify v (sift v t pl (deref t (pl + l - 1)) n l (l + l)) pl n (l - 1) else t)"
  by pat_completeness auto
termination
  by (relation "measure (\<lambda>(v, t, pl, n, l). nat l)") auto

function heap_extract :: "int list \<Rightarrow> nat list \<Rightarrow> int \<Rightarrow> int \<Rightarrow> nat list" where
  "heap_extract v t pl n =
     (if 1 < n
      then heap_extract v
             (sift v (store t (pl + n - 1) (deref t pl)) pl (deref t (pl + n - 1)) (n - 1) 1 2) pl (n - 1)
      else t)"
  by pat_completeness auto
termination
  by (relation "measure (\<lambda>(v, t, pl, n). nat n)") auto

declare sift.simps [simp del] heapify.simps [simp del] heap_extract.simps [simp del]

definition aheapsort :: "int list \<Rightarrow> nat list \<Rightarrow> int \<Rightarrow> int \<Rightarrow> nat list" where
  "aheapsort v t pl n = heap_extract v (heapify v t pl n (n div 2)) pl n"

text \<open>
  The outer loop \<^verbatim>\<open>while (1)\<close> of \<^verbatim>\<open>aquicksort\<close>, bounded by \<open>fuel\<close> steps; a step is one
  partition, or the sort of one range that is partitioned no further. \<open>fresh\<close> tells that
  the range was just taken (at the start, or from the stack), which is where the routine
  tests the depth. The stack holds the ranges still to sort, each with its depth. A
  partition fixes one position and a final sort ends one range, so \<open>2 \<cdot> num + 1\<close> steps
  are enough; \<open>None\<close> would be a run out of steps.
\<close>

fun aquicksort_loop ::
    "nat \<Rightarrow> int list \<Rightarrow> nat list \<Rightarrow> int \<Rightarrow> int \<Rightarrow> int \<Rightarrow> bool \<Rightarrow> (int \<times> int \<times> int) list
       \<Rightarrow> nat list option" where
  "aquicksort_loop 0 v t pl pr cdepth fresh stack = None"
| "aquicksort_loop (Suc fuel) v t pl pr cdepth fresh stack =
     (if fresh \<and> cdepth < 0 then
        (case stack of
           [] \<Rightarrow> Some (aheapsort v t pl (pr - pl + 1))
         | (pl', pr', d') # rest \<Rightarrow>
             aquicksort_loop fuel v (aheapsort v t pl (pr - pl + 1)) pl' pr' d' True rest)
      else if 15 < pr - pl then
        (case partition_range v t pl pr of
           None \<Rightarrow> None
         | Some (t', ptr_i) \<Rightarrow>
             if ptr_i - pl < pr - ptr_i
             then aquicksort_loop fuel v t' pl (ptr_i - 1) (cdepth - 1) False
                    ((ptr_i + 1, pr, cdepth - 1) # stack)
             else aquicksort_loop fuel v t' (ptr_i + 1) pr (cdepth - 1) False
                    ((pl, ptr_i - 1, cdepth - 1) # stack))
      else
        (case stack of
           [] \<Rightarrow> Some (insertion_sort v t pl pr (pl + 1))
         | (pl', pr', d') # rest \<Rightarrow>
             aquicksort_loop fuel v (insertion_sort v t pl pr (pl + 1)) pl' pr' d' True rest))"

text \<open>\<^verbatim>\<open>npy_get_msb\<close>: the position of the highest bit.\<close>

function npy_get_msb :: "nat \<Rightarrow> int" where
  "npy_get_msb n = (if n div 2 = 0 then 0 else 1 + npy_get_msb (n div 2))"
  by pat_completeness auto
termination
  by (relation "measure id") auto

declare npy_get_msb.simps [simp del]

definition aquicksort :: "int list \<Rightarrow> nat list option" where
  "aquicksort v =
     aquicksort_loop (2 * length v + 1) v [0..<length v] 0 (int (length v) - 1)
       (npy_get_msb (length v) * 2) True []"

text \<open>\<^verbatim>\<open>argsort(kind='quicksort')\<close> on a column of instants without missing values.\<close>

definition np_argsort :: "int list \<Rightarrow> nat list" where
  "np_argsort ks = (case aquicksort ks of Some t \<Rightarrow> t | None \<Rightarrow> [])"

section \<open>A frame of ties\<close>



section \<open>Proofs\<close>

lemma series_apply_Inr_iff:
  "series_apply f xs = Inr ys \<longleftrightarrow> map f xs = map Inr ys"
proof (induction xs arbitrary: ys)
  case Nil
  then show ?case by auto
next
  case (Cons a xs)
  show ?case
  proof (cases "f a")
    case (Inl e)
    then show ?thesis by (cases ys) auto
  next
    case fa: (Inr y)
    show ?thesis
    proof (cases "series_apply f xs")
      case (Inl e)
      with Cons.IH have "map f xs \<noteq> map Inr zs" for zs by auto
      with fa Inl show ?thesis by (cases ys) auto
    next
      case (Inr zs)
      with Cons.IH [of zs] have "map f xs = map Inr zs" by simp
      with fa Inr show ?thesis by (cases ys) (auto simp: inj_map_eq_map)
    qed
  qed
qed

lemma series_apply_total:
  "(\<And>x. x \<in> set xs \<Longrightarrow> f x = Inr (g x)) \<Longrightarrow> series_apply f xs = Inr (map g xs)"
  by (simp add: series_apply_Inr_iff)

lemma hav_a_alt:
  "hav_a lat1 lon1 lat2 lon2 =
     (1 - (sin (radians lat1) * sin (radians lat2)
           + cos (radians lat1) * cos (radians lat2) * cos (radians lon2 - radians lon1))) / 2"
proof -
  have h: "(sin (x / 2))\<^sup>2 = (1 - cos x) / 2" for x :: real
    using cos_double_sin [of "x / 2"] by simp
  have "hav_a lat1 lon1 lat2 lon2 =
      (1 - cos (radians lat2 - radians lat1)) / 2
      + cos (radians lat1) * cos (radians lat2) * ((1 - cos (radians lon2 - radians lon1)) / 2)"
    by (simp add: hav_a_def Let_def h)
  also have "cos (radians lat2 - radians lat1)
      = cos (radians lat2) * cos (radians lat1) + sin (radians lat2) * sin (radians lat1)"
    by (rule cos_diff)
  finally show ?thesis by (simp add: field_simps)
qed

lemma dot_bound:
  fixes s1 c1 s2 c2 k :: real
  assumes u1: "s1\<^sup>2 + c1\<^sup>2 = 1" and u2: "s2\<^sup>2 + c2\<^sup>2 = 1" and k: "\<bar>k\<bar> \<le> 1"
  shows "\<bar>s1 * s2 + c1 * c2 * k\<bar> \<le> 1"
proof -
  have k2: "k\<^sup>2 \<le> 1" using k by (simp add: abs_le_square_iff [of k 1, simplified])
  have cs: "(s1 * s2 + c1 * (c2 * k))\<^sup>2 \<le> (s1\<^sup>2 + c1\<^sup>2) * (s2\<^sup>2 + (c2 * k)\<^sup>2)"
  proof -
    have "(s1\<^sup>2 + c1\<^sup>2) * (s2\<^sup>2 + (c2 * k)\<^sup>2) - (s1 * s2 + c1 * (c2 * k))\<^sup>2
        = (s1 * (c2 * k) - c1 * s2)\<^sup>2"
      by (simp add: power2_eq_square algebra_simps)
    moreover have "0 \<le> (s1 * (c2 * k) - c1 * s2)\<^sup>2" by simp
    ultimately show ?thesis by linarith
  qed
  have "(c2 * k)\<^sup>2 \<le> c2\<^sup>2"
    using mult_left_mono [OF k2, of "c2\<^sup>2"] by (simp add: power_mult_distrib)
  then have "s2\<^sup>2 + (c2 * k)\<^sup>2 \<le> 1" using u2 by linarith
  with cs u1 have "(s1 * s2 + c1 * c2 * k)\<^sup>2 \<le> 1" by (simp add: mult.assoc)
  then show ?thesis by (simp add: abs_le_square_iff [of _ 1, simplified])
qed

lemma hav_a_bounds: "0 \<le> hav_a lat1 lon1 lat2 lon2" "hav_a lat1 lon1 lat2 lon2 \<le> 1"
  using dot_bound [of "sin (radians lat1)" "cos (radians lat1)" "sin (radians lat2)" "cos (radians lat2)" "cos (radians lon2 - radians lon1)"]
  by (auto simp: hav_a_alt abs_le_iff)

lemma haversine_Inr:
  "haversine lat1 lon1 lat2 lon2 = Inr (great_circle_km lat1 lon1 lat2 lon2)"
  using hav_a_bounds [of lat1 lon1 lat2 lon2]
  by (simp add: haversine_def py_sqrt_def Let_def great_circle_km_def)

lemma length_shift1 [simp]: "length (shift1 xs) = length xs"
  by (cases xs) (auto simp: shift1_def)

lemma nth_shift1:
  "i < length xs \<Longrightarrow> shift1 xs ! i = (if i = 0 then None else Some (xs ! (i - 1)))"
  by (cases i) (auto simp: shift1_def nth_butlast)

lemma calculate_distance_wf:
  "length cs = 2 \<Longrightarrow>
   calculate_distance a b cs =
     Inr (if a = None \<or> b = None then 0 else great_circle_km (the a) (the b) (cs ! 0) (cs ! 1))"
  by (cases cs; cases "tl cs") (auto simp: calculate_distance_def haversine_Inr)

lemma enrich_wf:
  assumes wf: "\<forall>p\<in>set df. length (coords p) = 2"
  shows "enrich Datetime64 df = Inr (map (traj_at df) [0..<length df])"
proof -
  have lats: "series_apply (\<lambda>p. item (coords p) 0) df = Inr (map (\<lambda>p. coords p ! 0) df)"
    using wf by (intro series_apply_total) (simp add: item_def)
  have lons: "series_apply (\<lambda>p. item (coords p) 1) df = Inr (map (\<lambda>p. coords p ! 1) df)"
    using wf by (intro series_apply_total) (simp add: item_def)
  define g where "g = (\<lambda>(a, b, p::point). if a = None \<or> b = None then 0
                          else great_circle_km (the a) (the b) (coords p ! 0) (coords p ! 1))"
  have dists: "series_apply (\<lambda>(a, b, p). calculate_distance a b (coords p)) zs = Inr (map g zs)"
    if "\<forall>z\<in>set zs. snd (snd z) \<in> set df" for zs
    using that wf by (intro series_apply_total) (auto simp: g_def calculate_distance_wf)
  let ?pl = "shift1 (map (\<lambda>p. coords p ! 0) df)"
  let ?plo = "shift1 (map (\<lambda>p. coords p ! 1) df)"
  have z: "\<forall>z\<in>set (zip ?pl (zip ?plo df)). snd (snd z) \<in> set df"
    by (auto dest!: set_zip_rightD)
  have "enrich Datetime64 df =
     Inr (map (\<lambda>(p, s, h, d).
                        \<lparr>raw = raw p, parsed_timestamp = parsed_timestamp p, coords = coords p,
                         sequence = s, distance_km = d,
                         avg_speed_kmh = calculate_avg_speed s h d\<rparr>)
                     (zip df (zip (map (\<lambda>i. int i + 1) [0..<length df])
                        (zip (map2 (\<lambda>p q. time_diff_hours_of (parsed_timestamp p) q) df
                                 (shift1 (map parsed_timestamp df)))
                             (map g (zip ?pl (zip ?plo df)))))))"
    unfolding enrich_def lats lons Let_def sum.case dists [OF z] by simp
  also have "\<dots> = Inr (map (traj_at df) [0..<length df])"
    by (auto intro!: nth_equalityI simp: nth_shift1 traj_at_def g_def time_diff_hours_of_def Let_def)
  finally show ?thesis .
qed

lemma extract_coordinates_length:
  "extract_coordinates s = Some c \<Longrightarrow> length c = 2"
  by (auto simp: extract_coordinates_def split: bind_splits prod.splits csv_value.splits)

lemma parse_rows_wf: "p \<in> set (parse_rows df) \<Longrightarrow> length (coords p) = 2"
  by (auto simp: parse_rows_def List.map_filter_def dest: extract_coordinates_length)

lemma argsort_ok_set: "argsort_ok argsort ks \<Longrightarrow> set (argsort ks) = {0..<length ks}"
  unfolding argsort_ok_def by (metis mset_eq_setD set_upt)

lemma argsort_ok_length: "argsort_ok argsort ks \<Longrightarrow> length (argsort ks) = length ks"
  unfolding argsort_ok_def by (metis length_upt mset_eq_length minus_nat.diff_0)

lemma mset_sort_values:
  assumes "argsort_ok argsort (map (\<lambda>p. instant (parsed_timestamp p)) df)"
  shows "mset (sort_values argsort df) = mset df"
proof -
  let ?ks = "map (\<lambda>p. instant (parsed_timestamp p)) df"
  have "mset (map (\<lambda>i. df ! i) (argsort ?ks)) = image_mset (\<lambda>i. df ! i) (mset (argsort ?ks))"
    by simp
  also have "mset (argsort ?ks) = mset [0..<length df]"
    using assms unfolding argsort_ok_def by simp
  also have "image_mset (\<lambda>i. df ! i) (mset [0..<length df]) = mset (map (\<lambda>i. df ! i) [0..<length df])"
    by simp
  also have "map (\<lambda>i. df ! i) [0..<length df] = df"
    by (rule map_nth)
  finally show ?thesis by (simp add: sort_values_def)
qed

lemma sorted_sort_values:
  assumes "argsort_ok argsort (map (\<lambda>p. instant (parsed_timestamp p)) df)"
  shows "sorted (map (\<lambda>p. instant (parsed_timestamp p)) (sort_values argsort df))"
proof -
  let ?ks = "map (\<lambda>p. instant (parsed_timestamp p)) df"
  have "map (\<lambda>p. instant (parsed_timestamp p)) (sort_values argsort df)
      = map (\<lambda>i. ?ks ! i) (argsort ?ks)"
    using argsort_ok_set [OF assms] by (auto simp: sort_values_def)
  then show ?thesis using assms unfolding argsort_ok_def by simp
qed

lemma length_sort_values:
  "argsort_ok argsort (map (\<lambda>p. instant (parsed_timestamp p)) df)
     \<Longrightarrow> length (sort_values argsort df) = length df"
  using argsort_ok_length [of argsort "map (\<lambda>p. instant (parsed_timestamp p)) df"]
  by (simp add: sort_values_def)

lemma set_sort_values:
  "argsort_ok argsort (map (\<lambda>p. instant (parsed_timestamp p)) df)
     \<Longrightarrow> set (sort_values argsort df) = set df"
  by (metis mset_sort_values set_mset_mset)

lemma sorted_rows:
  assumes "argsort_ok argsort (sort_keys df)"
  shows "length (sort_values argsort (parse_rows df)) = length (parse_rows df)"
    and "set (sort_values argsort (parse_rows df)) = set (parse_rows df)"
    and "mset (sort_values argsort (parse_rows df)) = mset (parse_rows df)"
    and "sorted (map (\<lambda>p. instant (parsed_timestamp p)) (sort_values argsort (parse_rows df)))"
  using assms length_sort_values set_sort_values mset_sort_values sorted_sort_values
  unfolding sort_keys_def by blast+

lemma parse_timestamp_Text: "parse_timestamp (Text s) = Inr (strptime s)"
  by (simp add: parse_timestamp_def)

lemma parse_timestamp_cases:
  "parse_timestamp c = Inl TypeError \<or> (\<exists>s. c = Text s \<and> parse_timestamp c = Inr (strptime s))"
  by (cases c) (simp_all add: parse_timestamp_def)

lemma parse_timestamp_Inr_D: "parse_timestamp c = Inr v \<Longrightarrow> \<exists>s. c = Text s \<and> v = strptime s"
  by (cases c) (simp_all add: parse_timestamp_def)

lemma parse_timestamp_Inl_D: "parse_timestamp c = Inl e \<Longrightarrow> e = TypeError"
  by (cases c) (simp_all add: parse_timestamp_def)

lemma extract_coordinates_Text:
  "extract_coordinates (Text s) =
     do { (g1, g2) \<leftarrow> match_point s; lon \<leftarrow> py_float g1; lat \<leftarrow> py_float g2; Some [lat, lon] }"
  by (simp add: extract_coordinates_def)

lemma extract_coordinates_Some_D: "extract_coordinates c = Some v \<Longrightarrow> \<exists>s. c = Text s"
  by (cases c) (simp_all add: extract_coordinates_def)

lemma apply_parse_timestamp:
  "series_apply parse_timestamp (map timestamp df) =
     (if \<exists>r\<in>set df. parse_timestamp (timestamp r) = Inl TypeError then Inl TypeError
      else Inr (map (\<lambda>r. projr (parse_timestamp (timestamp r))) df))"
proof (induction df)
  case Nil
  then show ?case by simp
next
  case (Cons r df)
  show ?case
    using parse_timestamp_cases [of "timestamp r"] Cons.IH
    by (auto split: sum.splits)
qed

lemma series_dtype_Object_iff:
  assumes "\<not> (\<exists>r\<in>set df. parse_timestamp (timestamp r) = Inl TypeError)"
  shows "series_dtype (map (\<lambda>r. projr (parse_timestamp (timestamp r))) df) = Object
     \<longleftrightarrow> (\<forall>r\<in>set df. parse_timestamp (timestamp r) = Inr None)"
proof -
  have eq: "projr (parse_timestamp (timestamp r)) = None \<longleftrightarrow> parse_timestamp (timestamp r) = Inr None"
    if "r \<in> set df" for r
    using assms that parse_timestamp_cases [of "timestamp r"] by auto
  have "series_dtype (map (\<lambda>r. projr (parse_timestamp (timestamp r))) df) = Object
     \<longleftrightarrow> (\<forall>r\<in>set df. projr (parse_timestamp (timestamp r)) = None)"
    by (auto simp: series_dtype_def list_ex_iff)
  also have "\<dots> \<longleftrightarrow> (\<forall>r\<in>set df. parse_timestamp (timestamp r) = Inr None)"
    using eq by (intro ball_cong refl) 
  finally show ?thesis .
qed

lemma series_dtype_cases: "series_dtype vs = Object \<or> series_dtype vs = Datetime64"
  by (simp add: series_dtype_def)

lemma parse_rows_Nil_if_Object:
  "\<forall>r\<in>set df. parse_timestamp (timestamp r) = Inr None \<Longrightarrow> parse_rows df = []"
  by (auto simp: parse_rows_def List.map_filter_def filter_empty_conv)

lemma drop_duplicates_Inr_iff:
  assumes "\<forall>p\<in>set df. length (coords p) = 2"
  shows "drop_duplicates df = Inr df' \<longleftrightarrow> df = [] \<and> df' = []"
  by (cases df) (auto simp: drop_duplicates_def cells_def)

lemma drop_duplicates_nonempty: "df \<noteq> [] \<Longrightarrow> drop_duplicates df = Inl TypeError"
  by (cases df) (auto simp: drop_duplicates_def cells_def)

text \<open>The whole of process_data, by cases.\<close>

lemma process_data_raises_at_parse:
  assumes "\<exists>r\<in>set df. parse_timestamp (timestamp r) = Inl TypeError"
  shows "process_data argsort df rd = Inl TypeError"
  using assms by (simp add: process_data_def apply_parse_timestamp)

lemma process_data_cases:
  assumes ok: "argsort_ok argsort (sort_keys df)"
  shows "process_data argsort df rd =
     (if \<exists>r\<in>set df. parse_timestamp (timestamp r) = Inl TypeError then Inl TypeError
      else if rd \<and> parse_rows df \<noteq> [] then Inl TypeError
      else if \<forall>r\<in>set df. parse_timestamp (timestamp r) = Inr None then Inl AttributeError
      else Inr (map (traj_at (sort_values argsort (parse_rows df)))
                    [0..<length (parse_rows df)]))"
proof (cases "\<exists>r\<in>set df. parse_timestamp (timestamp r) = Inl TypeError")
  case True
  then show ?thesis using process_data_raises_at_parse by simp
next
  case noerr: False
  let ?dt = "series_dtype (map (\<lambda>r. projr (parse_timestamp (timestamp r))) df)"
  note ok' = ok [unfolded sort_keys_def]
  have wf: "\<forall>p\<in>set (sort_values argsort (parse_rows df)). length (coords p) = 2"
    using parse_rows_wf by (simp add: set_sort_values [OF ok'])
  have sv_nil: "sort_values argsort [] = []" if "parse_rows df = []"
    using length_sort_values [OF ok'] that by simp
  have obj: "enrich Object [] = Inl AttributeError"
    by (simp add: enrich_def shift1_def)
  have pd: "process_data argsort df rd =
      (case (if rd then drop_duplicates (parse_rows df) else Inr (parse_rows df)) of
         Inl e \<Rightarrow> Inl e
       | Inr df3 \<Rightarrow> enrich ?dt (sort_values argsort df3))"
    using noerr by (simp add: process_data_def apply_parse_timestamp Let_def)
  consider (dup) "rd" "parse_rows df \<noteq> []"
    | (obj) "\<not> (rd \<and> parse_rows df \<noteq> [])" "?dt = Object"
    | (go) "\<not> (rd \<and> parse_rows df \<noteq> [])" "?dt = Datetime64"
    using series_dtype_cases by blast
  then show ?thesis
  proof cases
    case dup
    have "process_data argsort df rd = Inl TypeError"
      unfolding pd using dup by (simp add: drop_duplicates_nonempty)
    then show ?thesis using noerr dup by simp
  next
    case obj
    then have all: "\<forall>r\<in>set df. parse_timestamp (timestamp r) = Inr None"
      using series_dtype_Object_iff [OF noerr] by simp
    have nil: "parse_rows df = []"
      using all parse_rows_Nil_if_Object by blast
    have "process_data argsort df rd = Inl AttributeError"
      unfolding pd nil obj(2)
      by (simp add: sv_nil [OF nil] drop_duplicates_def \<open>enrich Object [] = Inl AttributeError\<close>)
    with all nil noerr show ?thesis by simp
  next
    case go
    then have ne: "\<not> (\<forall>r\<in>set df. parse_timestamp (timestamp r) = Inr None)"
      using series_dtype_Object_iff [OF noerr] by simp
    have "(if rd then drop_duplicates (parse_rows df) else Inr (parse_rows df)) = Inr (parse_rows df)"
      using go(1) by (auto simp: drop_duplicates_def)
    then show ?thesis
      using go ne noerr enrich_wf [OF wf]
      by (simp add: pd length_sort_values [OF ok'])
  qed
qed

lemmas ts_eval = parse_timestamp_def strptime_def field_b_def a_month_def to_lower_def spaces1_def
  is_space_def field_d_def field_num_def is_digit_def int_of_digits_def digit_val_def expect_def
  field_Y_def field_H_def field_M_def field_S_def field_f_def fraction_us_def mk_datetime_def
  days_in_month_def is_leap_def

lemmas pos_eval = extract_coordinates_def match_point_def expect_def spaces0_def spaces1_def
  group_num_def is_num_char_def is_digit_def is_space_def py_float_def int_of_digits_def
  digit_val_def

lemma demo_timestamps:
  "parse_timestamp (Text ''Jun 28, 2024 @ 13:59:38.831'') =
     Inr (Some \<lparr>year = 2024, month = 6, day = 28, hour = 13, minute = 59, second = 38, microsecond = 831000\<rparr>)"
  "parse_timestamp (Text ''Jun 28, 2024 @ 12:59:38.831'') =
     Inr (Some \<lparr>year = 2024, month = 6, day = 28, hour = 12, minute = 59, second = 38, microsecond = 831000\<rparr>)"
  by (simp_all add: ts_eval)

lemma demo_positions:
  "extract_coordinates (Text ''POINT (0 0)'') = Some [0, 0]"
  "extract_coordinates (Text ''POINT (90 0)'') = Some [0, 90]"
  by (simp_all add: pos_eval)

lemma demo_instants:
  "instant \<lparr>year = 2024, month = 6, day = 28, hour = 13, minute = 59, second = 38, microsecond = 831000\<rparr>
     = 63855179978831000"
  "instant \<lparr>year = 2024, month = 6, day = 28, hour = 12, minute = 59, second = 38, microsecond = 831000\<rparr>
     = 63855176378831000"
  by (simp_all add: instant_def ymd2ord_def days_before_year_def days_before_month_def
        days_in_month_def is_leap_def)

lemma parse_rows_demo:
  "parse_rows demo_rows =
     [\<lparr>raw = demo_rows ! 0,
       parsed_timestamp = \<lparr>year = 2024, month = 6, day = 28, hour = 13, minute = 59, second = 38, microsecond = 831000\<rparr>,
       coords = [0, 0]\<rparr>,
      \<lparr>raw = demo_rows ! 1,
       parsed_timestamp = \<lparr>year = 2024, month = 6, day = 28, hour = 12, minute = 59, second = 38, microsecond = 831000\<rparr>,
       coords = [0, 90]\<rparr>,
      \<lparr>raw = demo_rows ! 2,
       parsed_timestamp = \<lparr>year = 2024, month = 6, day = 28, hour = 12, minute = 59, second = 38, microsecond = 831000\<rparr>,
       coords = [0, 90]\<rparr>]"
  by (simp add: parse_rows_def demo_rows_def List.map_filter_simps demo_timestamps demo_positions)

lemma sort_keys_demo:
  "sort_keys demo_rows = [63855179978831000, 63855176378831000, 63855176378831000]"
  by (simp add: sort_keys_def parse_rows_demo demo_instants)

lemma np_argsort_demo:
  "np_argsort [63855179978831000, 63855176378831000, 63855176378831000] = [1, 2, 0]"
  by code_simp

lemma demo_argsort_ok: "argsort_ok np_argsort (sort_keys demo_rows)"
proof -
  have "[0..<3] = [0, 1, 2 :: nat]" by (simp add: upt_rec)
  then show ?thesis
    by (simp add: argsort_ok_def sort_keys_demo np_argsort_demo del: mset_upt)
qed

lemma sort_values_demo:
  "sort_values np_argsort (parse_rows demo_rows) =
     [parse_rows demo_rows ! 1, parse_rows demo_rows ! 2, parse_rows demo_rows ! 0]"
  using np_argsort_demo sort_keys_demo by (simp add: sort_values_def sort_keys_def)

lemma demo_not_all_None:
  "\<not> (\<forall>r\<in>set demo_rows. parse_timestamp (timestamp r) = Inr None)"
  by (simp add: demo_rows_def demo_timestamps)

lemma demo_no_error:
  "\<not> (\<exists>r\<in>set demo_rows. parse_timestamp (timestamp r) = Inl TypeError)"
  by (simp add: demo_rows_def parse_timestamp_Text)

lemma process_data_demo:
  "process_data np_argsort demo_rows False =
     Inr (map (traj_at (sort_values np_argsort (parse_rows demo_rows)))
              [0..<length (parse_rows demo_rows)])"
  unfolding process_data_cases [OF demo_argsort_ok] using demo_not_all_None demo_no_error by simp

lemma truncate_traj_at: "i < length S \<Longrightarrow> point.truncate (traj_at S i) = S ! i"
  by (simp add: traj_at_def Let_def point.truncate_def)

lemma process_data_Inr_D:
  assumes ok: "argsort_ok argsort (sort_keys df)" and res: "process_data argsort df rd = Inr out"
  shows "out = map (traj_at (sort_values argsort (parse_rows df))) [0..<length (parse_rows df)]"
    and "rd \<Longrightarrow> parse_rows df = []"
  using res unfolding process_data_cases [OF ok] by (auto split: if_splits)

text \<open>Claim C1. Whenever \<open>process_data\<close> returns a frame, its sequence numbers are
  \<open>1, 2, \<dots>, N\<close> in this order, where \<open>N\<close> is the number of rows that survive both
  parsers (and the removal of duplicates when it is asked for), and row \<open>i\<close> (counted from
  0) of the result is row \<open>i\<close> of the surviving rows sorted by timestamp.\<close>

theorem sequence_contiguous:
  assumes "argsort_ok argsort (sort_keys df)" and "process_data argsort df remove_duplicates = Inr out"
  shows "map sequence out = map int [1..<Suc (length out)]
       \<and> length out = length (if remove_duplicates then keep_first [] (parse_rows df) else parse_rows df)
       \<and> map point.truncate out = sort_values argsort (parse_rows df)"
proof -
  let ?S = "sort_values argsort (parse_rows df)"
  have out: "out = map (traj_at ?S) [0..<length (parse_rows df)]"
    and rd: "remove_duplicates \<Longrightarrow> parse_rows df = []"
    using process_data_Inr_D [OF assms] by auto
  have len: "length ?S = length (parse_rows df)"
    by (rule sorted_rows(1) [OF assms(1)])
  have "map sequence out = map (\<lambda>i. int i + 1) [0..<length out]"
    by (rule nth_equalityI) (auto simp: out traj_at_def Let_def)
  also have "\<dots> = map int (map Suc [0..<length out])"
    by simp
  also have "map Suc [0..<length out] = [1..<Suc (length out)]"
    by (simp add: map_Suc_upt)
  finally have 1: "map sequence out = map int [1..<Suc (length out)]" .
  have 2: "length out = length (if remove_duplicates then keep_first [] (parse_rows df) else parse_rows df)"
    using rd by (auto simp: out)
  have 3: "map point.truncate out = ?S"
    by (rule nth_equalityI) (auto simp: out len truncate_traj_at)
  from 1 2 3 show ?thesis by blast
qed

text \<open>The example frame: three rows survive and are numbered 1, 2, 3.\<close>

theorem sequence_contiguous_witness:
  "argsort_ok np_argsort (sort_keys demo_rows)
   \<and> (\<exists>out. process_data np_argsort demo_rows False = Inr out
          \<and> map sequence out = [1, 2, 3] \<and> length (parse_rows demo_rows) = 3)"
proof -
  have ok: "argsort_ok np_argsort (sort_keys demo_rows)" by (rule demo_argsort_ok)
  obtain out where out: "process_data np_argsort demo_rows False = Inr out"
    using process_data_demo by blast
  have "length out = 3"
    using sequence_contiguous [OF ok out] by (simp add: parse_rows_demo)
  with sequence_contiguous [OF ok out] have "map sequence out = [1, 2, 3]"
    by (simp add: upt_rec)
  with ok out show ?thesis by (auto simp: parse_rows_demo)
qed

lemma traj_at_nth:
  assumes ok: "argsort_ok argsort (sort_keys df)" and res: "process_data argsort df rd = Inr out"
    and i: "i < length out"
  shows "out ! i = traj_at (map point.truncate out) i"
proof -
  let ?S = "sort_values argsort (parse_rows df)"
  have out: "out = map (traj_at ?S) [0..<length (parse_rows df)]"
    using process_data_Inr_D [OF ok res] by auto
  have len: "length ?S = length (parse_rows df)"
    by (rule sorted_rows(1) [OF ok])
  have "map point.truncate out = ?S"
    by (rule nth_equalityI) (auto simp: out len truncate_traj_at)
  with out i show ?thesis by simp
qed

lemma out_coords_wf:
  assumes ok: "argsort_ok argsort (sort_keys df)" and res: "process_data argsort df rd = Inr out"
    and i: "i < length out"
  shows "length (coords (out ! i)) = 2"
proof -
  let ?S = "sort_values argsort (parse_rows df)"
  have out: "out = map (traj_at ?S) [0..<length (parse_rows df)]"
    using process_data_Inr_D [OF ok res] by auto
  have len: "length ?S = length (parse_rows df)"
    by (rule sorted_rows(1) [OF ok])
  have "?S ! i \<in> set (parse_rows df)"
    using i out len sorted_rows(2) [OF ok] nth_mem [of i ?S] by simp
  then have "length (coords (?S ! i)) = 2" by (rule parse_rows_wf)
  then show ?thesis using i by (simp add: out traj_at_def Let_def)
qed

lemma two_elems: "length xs = 2 \<Longrightarrow> xs = [xs ! 0, xs ! 1]"
  by (cases xs; cases "tl xs") auto

text \<open>Claim C3. The first row of the result has distance 0. Every later row, of sequence number
  \<open>i + 1 > 1\<close>, carries the value of \<open>haversine\<close> between the coordinates of the row
  before it and its own, which is \<open>2 \<cdot> 6371 \<cdot> atan2 (\<surd>a) (\<surd>(1 - a))\<close> for the term \<open>a\<close> of the
  haversine formula on the angles in radians.\<close>

theorem distance_is_haversine:
  assumes "argsort_ok argsort (sort_keys df)" and "process_data argsort df remove_duplicates = Inr out"
    and "i < length out"
  shows "sequence (out ! i) = int i + 1
       \<and> (i = 0 \<longrightarrow> distance_km (out ! i) = 0)
       \<and> (0 < i \<longrightarrow>
            (\<exists>lat1 lon1 lat2 lon2 a.
                coords (out ! (i - 1)) = [lat1, lon1] \<and> coords (out ! i) = [lat2, lon2]
              \<and> a = (sin ((radians lat2 - radians lat1) / 2))\<^sup>2
                    + cos (radians lat1) * cos (radians lat2)
                      * (sin ((radians lon2 - radians lon1) / 2))\<^sup>2
              \<and> haversine lat1 lon1 lat2 lon2 = Inr (distance_km (out ! i))
              \<and> distance_km (out ! i) = 2 * 6371 * atan2 (sqrt a) (sqrt (1 - a))))"
proof -
  let ?P = "map point.truncate out"
  have row: "out ! i = traj_at ?P i"
    by (rule traj_at_nth [OF assms])
  have seq: "sequence (out ! i) = int i + 1"
    by (subst row) (simp add: traj_at_def Let_def)
  have first: "i = 0 \<longrightarrow> distance_km (out ! i) = 0"
    by (subst row) (simp add: traj_at_def Let_def)
  have later: "\<exists>lat1 lon1 lat2 lon2 a.
                coords (out ! (i - 1)) = [lat1, lon1] \<and> coords (out ! i) = [lat2, lon2]
              \<and> a = (sin ((radians lat2 - radians lat1) / 2))\<^sup>2
                    + cos (radians lat1) * cos (radians lat2)
                      * (sin ((radians lon2 - radians lon1) / 2))\<^sup>2
              \<and> haversine lat1 lon1 lat2 lon2 = Inr (distance_km (out ! i))
              \<and> distance_km (out ! i) = 2 * 6371 * atan2 (sqrt a) (sqrt (1 - a))" if "0 < i"
  proof -
    let ?q = "out ! (i - 1)" and ?p = "out ! i"
    have im: "i - 1 < length out" using assms(3) by simp
    have cq: "coords ?q = [coords ?q ! 0, coords ?q ! 1]"
      by (rule two_elems [OF out_coords_wf [OF assms(1,2) im]])
    have cp: "coords ?p = [coords ?p ! 0, coords ?p ! 1]"
      by (rule two_elems [OF out_coords_wf [OF assms(1,2,3)]])
    have d: "distance_km ?p =
               great_circle_km (coords ?q ! 0) (coords ?q ! 1) (coords ?p ! 0) (coords ?p ! 1)"
      using that assms(3) im
      by (subst row) (simp add: traj_at_def Let_def point.truncate_def)
    show ?thesis
      apply (rule exI [of _ "coords ?q ! 0"], rule exI [of _ "coords ?q ! 1"])
      apply (rule exI [of _ "coords ?p ! 0"], rule exI [of _ "coords ?p ! 1"])
      apply (rule exI [of _ "hav_a (coords ?q ! 0) (coords ?q ! 1) (coords ?p ! 0) (coords ?p ! 1)"])
      using cq cp
      by (simp add: d haversine_Inr) (simp add: great_circle_km_def hav_a_def Let_def)
  qed
  from seq first later show ?thesis by blast
qed

lemma demo_out:
  assumes "process_data np_argsort demo_rows False = Inr out"
  shows "length out = 3"
    and "map coords out = [[0, 90], [0, 90], [0, 0]]"
    and "map (\<lambda>p. instant (parsed_timestamp p)) out
           = [63855176378831000, 63855176378831000, 63855179978831000]"
proof -
  have out: "out = map (traj_at (sort_values np_argsort (parse_rows demo_rows)))
                       [0..<length (parse_rows demo_rows)]"
    using assms process_data_demo by simp
  have u: "[0..<3] = [0, 1, 2]" by (simp add: upt_rec)
  have l: "length (parse_rows demo_rows) = 3" by (simp add: parse_rows_demo)
  show "length out = 3" by (simp add: out l)
  show "map coords out = [[0, 90], [0, 90], [0, 0]]"
    unfolding out l u sort_values_demo
    by (simp add: traj_at_def Let_def parse_rows_demo)
  show "map (\<lambda>p. instant (parsed_timestamp p)) out
           = [63855176378831000, 63855176378831000, 63855179978831000]"
    unfolding out l u sort_values_demo
    by (simp add: traj_at_def Let_def parse_rows_demo demo_instants)
qed

text \<open>The example frame: its third row is one quarter of a great circle away from the second.\<close>

theorem distance_is_haversine_witness:
  "argsort_ok np_argsort (sort_keys demo_rows)
   \<and> (\<exists>out. process_data np_argsort demo_rows False = Inr out \<and> 2 < length out
         \<and> sequence (out ! 2) = 3 \<and> sequence (out ! 0) = 1 \<and> distance_km (out ! 0) = 0
         \<and> haversine 0 90 0 0 = Inr (distance_km (out ! 2)))"
proof -
  have ok: "argsort_ok np_argsort (sort_keys demo_rows)" by (rule demo_argsort_ok)
  obtain out where out: "process_data np_argsort demo_rows False = Inr out"
    using process_data_demo by blast
  note d = demo_out [OF out]
  have c: "coords (out ! 1) = [0, 90]" "coords (out ! 2) = [0, 0]"
    using d(1) arg_cong [OF d(2), of "\<lambda>xs. xs ! 1"] arg_cong [OF d(2), of "\<lambda>xs. xs ! 2"]
    by simp_all
  have "2 < length out" "0 < length out" using d(1) by simp_all
  from distance_is_haversine [OF ok out this(1)] distance_is_haversine [OF ok out this(2)] c
  have "sequence (out ! 2) = 3" "sequence (out ! 0) = 1" "distance_km (out ! 0) = 0"
    "haversine 0 90 0 0 = Inr (distance_km (out ! 2))"
    by auto
  with ok out \<open>2 < length out\<close> show ?thesis by blast
qed

lemma round_half_even_near: "\<bar>real_of_int (round_half_even y) - y\<bar> \<le> 1 / 2"
  unfolding round_half_even_def Let_def by (auto simp: abs_if) linarith+

lemma round_half_even_nonneg: "0 \<le> y \<Longrightarrow> 0 \<le> round_half_even y"
  unfolding round_half_even_def Let_def by (auto simp: abs_if)

lemma format_2f_precision:
  assumes "0 \<le> x"
  shows "\<exists>n. format_2f x = str_nat (n div 100) @ ''.'' @ [digit_char (n div 10), digit_char n]
            \<and> \<bar>real n / 100 - x\<bar> \<le> 1 / 200"
proof -
  let ?r = "round_half_even (\<bar>x\<bar> * 100)"
  let ?n = "nat ?r"
  have r0: "0 \<le> ?r" by (rule round_half_even_nonneg) simp
  have "\<bar>real_of_int ?r - \<bar>x\<bar> * 100\<bar> \<le> 1 / 2" by (rule round_half_even_near)
  with r0 assms have "\<bar>real ?n / 100 - x\<bar> \<le> 1 / 200" by (simp add: abs_if split: if_splits)
  moreover have "format_2f x = str_nat (?n div 100) @ ''.'' @ [digit_char (?n div 10), digit_char ?n]"
    using assms by (simp add: format_2f_def Let_def)
  ultimately show ?thesis by blast
qed

lemma digit_val_digit_char: "digit_val (digit_char n) = n mod 10"
proof -
  have "n mod 10 \<in> {0,1,2,3,4,5,6,7,8,9}" by (simp; presburger)
  then show ?thesis
    by (auto simp: digit_char_def digit_val_def)
qed

lemma int_of_digits_snoc: "int_of_digits (ds @ [c]) = 10 * int_of_digits ds + digit_val c"
  by (simp add: int_of_digits_def)

lemma int_of_digits_str_nat: "int_of_digits (str_nat n) = n"
proof (induction n rule: str_nat.induct)
  case (1 n)
  show ?case
  proof (cases "n < 10")
    case True
    then show ?thesis
      using digit_val_digit_char [of n]
      by (subst str_nat.simps) (simp add: int_of_digits_def)
  next
    case False
    with 1 have "int_of_digits (str_nat (n div 10)) = n div 10" by simp
    with False show ?thesis
      by (subst str_nat.simps) (simp add: int_of_digits_snoc digit_val_digit_char)
  qed
qed

text \<open>Claim C4. The speed of a row is \<^verbatim>\<open>N/A\<close> when its sequence number is 1 or when the
  hours elapsed since the row before it are not positive; otherwise it is the distance over
  the elapsed hours, printed with two decimals (the printed number is within half a
  hundredth of the quotient) and followed by the unit. Ten kilometres in one hour print as
  \<^verbatim>\<open>10.00 km/h\<close>.\<close>

theorem avg_speed_rule:
  assumes "argsort_ok argsort (sort_keys df)" and "process_data argsort df remove_duplicates = Inr out"
    and "i < length out"
  shows "(let h = real_of_int (instant (parsed_timestamp (out ! i))
                               - instant (parsed_timestamp (out ! (i - 1)))) / 1000000 / 3600
          in avg_speed_kmh (out ! i) =
               (if sequence (out ! i) = 1 \<or> h \<le> 0 then ''N/A''
                else format_2f (distance_km (out ! i) / h) @ '' km/h''))
       \<and> (\<forall>x\<ge>0. \<exists>n. format_2f x = str_nat (n div 100) @ ''.'' @ [digit_char (n div 10), digit_char n]
                    \<and> int_of_digits (str_nat (n div 100)) = n div 100
                    \<and> \<bar>real n / 100 - x\<bar> \<le> 1 / 200)
       \<and> calculate_avg_speed 2 (Some 1) 10 = ''10.00 km/h''"
proof -
  let ?P = "map point.truncate out"
  have row: "out ! i = traj_at ?P i"
    by (rule traj_at_nth [OF assms])
  have im: "i - 1 < length out" using assms(3) by simp
  have 1: "(let h = real_of_int (instant (parsed_timestamp (out ! i))
                               - instant (parsed_timestamp (out ! (i - 1)))) / 1000000 / 3600
          in avg_speed_kmh (out ! i) =
               (if sequence (out ! i) = 1 \<or> h \<le> 0 then ''N/A''
                else format_2f (distance_km (out ! i) / h) @ '' km/h''))"
  proof -
    define h where "h = real_of_int (instant (parsed_timestamp (out ! i))
                               - instant (parsed_timestamp (out ! (i - 1)))) / 1000000 / 3600"
    have t: "parsed_timestamp (?P ! i) = parsed_timestamp (out ! i)"
      "parsed_timestamp (?P ! (i - 1)) = parsed_timestamp (out ! (i - 1))"
      using assms(3) im by (simp_all add: point.truncate_def)
    have s: "sequence (out ! i) = int i + 1"
      by (subst row) (simp add: traj_at_def Let_def)
    have d: "distance_km (traj_at ?P i) = distance_km (out ! i)"
      using row by simp
    have "avg_speed_kmh (out ! i) = avg_speed_kmh (traj_at ?P i)"
      using row by simp
    also have "\<dots> = calculate_avg_speed (int i + 1) (if i = 0 then None else Some h)
                         (distance_km (traj_at ?P i))"
      unfolding traj_at_def Let_def h_def t by simp
    finally have a: "avg_speed_kmh (out ! i) =
        calculate_avg_speed (int i + 1) (if i = 0 then None else Some h) (distance_km (out ! i))"
      unfolding d .
    have "avg_speed_kmh (out ! i) =
               (if sequence (out ! i) = 1 \<or> h \<le> 0 then ''N/A''
                else format_2f (distance_km (out ! i) / h) @ '' km/h'')"
      unfolding a s by (simp add: calculate_avg_speed_def)
    then show ?thesis unfolding h_def Let_def .
  qed
  have 2: "\<forall>x\<ge>0. \<exists>n. format_2f x = str_nat (n div 100) @ ''.'' @ [digit_char (n div 10), digit_char n]
                    \<and> int_of_digits (str_nat (n div 100)) = n div 100
                    \<and> \<bar>real n / 100 - x\<bar> \<le> 1 / 200"
    using format_2f_precision by (auto simp: int_of_digits_str_nat)
  have 3: "calculate_avg_speed 2 (Some 1) 10 = ''10.00 km/h''"
    by (simp add: calculate_avg_speed_def format_2f_def round_half_even_def digit_char_def str_nat.simps)
  from 1 2 3 show ?thesis by blast
qed

lemma demo_out_seq:
  assumes "process_data np_argsort demo_rows False = Inr out"
  shows "map sequence out = [1, 2, 3]"
proof -
  have out: "out = map (traj_at (sort_values np_argsort (parse_rows demo_rows)))
                       [0..<length (parse_rows demo_rows)]"
    using assms process_data_demo by simp
  have u: "[0..<3] = [0, 1, 2]" by (simp add: upt_rec)
  have l: "length (parse_rows demo_rows) = 3" by (simp add: parse_rows_demo)
  show ?thesis unfolding out l u by (simp add: traj_at_def Let_def)
qed

text \<open>The example frame: the first row and the row that ties with it have no speed; the third
  row, one hour later, has one.\<close>

theorem avg_speed_rule_witness:
  "argsort_ok np_argsort (sort_keys demo_rows)
   \<and> (\<exists>out. process_data np_argsort demo_rows False = Inr out \<and> 2 < length out
         \<and> avg_speed_kmh (out ! 0) = ''N/A'' \<and> avg_speed_kmh (out ! 1) = ''N/A''
         \<and> avg_speed_kmh (out ! 2) = format_2f (distance_km (out ! 2) / 1) @ '' km/h'')"
proof -
  have ok: "argsort_ok np_argsort (sort_keys demo_rows)" by (rule demo_argsort_ok)
  obtain out where out: "process_data np_argsort demo_rows False = Inr out"
    using process_data_demo by blast
  note d = demo_out [OF out] and s = demo_out_seq [OF out]
  have l: "0 < length out" "1 < length out" "2 < length out" using d(1) by simp_all
  have sq: "sequence (out ! 0) = 1" "sequence (out ! 1) = 2" "sequence (out ! 2) = 3"
    using l arg_cong [OF s, of "\<lambda>xs. xs ! 0"] arg_cong [OF s, of "\<lambda>xs. xs ! 1"]
      arg_cong [OF s, of "\<lambda>xs. xs ! 2"] by simp_all
  have ts: "instant (parsed_timestamp (out ! 0)) = 63855176378831000"
    "instant (parsed_timestamp (out ! 1)) = 63855176378831000"
    "instant (parsed_timestamp (out ! 2)) = 63855179978831000"
    using l arg_cong [OF d(3), of "\<lambda>xs. xs ! 0"] arg_cong [OF d(3), of "\<lambda>xs. xs ! 1"]
      arg_cong [OF d(3), of "\<lambda>xs. xs ! 2"] by simp_all
  have one: "sequence (out ! Suc 0) = 2"
    "instant (parsed_timestamp (out ! Suc 0)) = 63855176378831000"
    using sq(2) ts(2) by simp_all
  have "avg_speed_kmh (out ! 0) = ''N/A''"
    using avg_speed_rule [OF ok out l(1)] by (simp add: sq Let_def)
  moreover have "avg_speed_kmh (out ! 1) = ''N/A''"
    using avg_speed_rule [OF ok out l(2)] by (simp add: one ts(1) Let_def)
  moreover have "avg_speed_kmh (out ! 2) = format_2f (distance_km (out ! 2) / 1) @ '' km/h''"
    using avg_speed_rule [OF ok out l(3)] by (simp add: sq ts one Let_def)
  ultimately show ?thesis using ok out l(3) by blast
qed

text \<open>Claim C8 (the program does not do what the claim says). With \<^verbatim>\<open>remove_duplicates\<close> set
  and at least one row that survives the parsers, \<open>process_data\<close> raises \<^verbatim>\<open>TypeError\<close>:
  the column \<^verbatim>\<open>coords\<close> holds lists, which cannot be hashed.\<close>

theorem drop_duplicates_raises:
  "parse_rows df \<noteq> [] \<Longrightarrow> process_data argsort df True = Inl TypeError"
  by (simp add: process_data_def apply_parse_timestamp Let_def drop_duplicates_nonempty)

text \<open>The example frame has two identical rows: with the flag set the run raises, without it
  all three rows remain.\<close>

theorem drop_duplicates_raises_witness:
  "demo_rows ! 1 = demo_rows ! 2 \<and> parse_rows demo_rows \<noteq> []
   \<and> process_data np_argsort demo_rows True = Inl TypeError
   \<and> (\<exists>out. process_data np_argsort demo_rows False = Inr out \<and> length out = 3)"
proof -
  have ne: "parse_rows demo_rows \<noteq> []" by (simp add: parse_rows_demo)
  have "demo_rows ! 1 = demo_rows ! 2" by (simp add: demo_rows_def)
  moreover have "\<exists>out. process_data np_argsort demo_rows False = Inr out \<and> length out = 3"
    using process_data_demo demo_out(1) by blast
  ultimately show ?thesis using ne drop_duplicates_raises [OF ne] by blast
qed

text \<open>Claim C9 (the program does not do what the claim says). On a frame without rows, and on
  a frame where no timestamp parses, \<open>process_data\<close> raises \<^verbatim>\<open>AttributeError\<close> at line
  106, so that \<open>create_map\<close> and its report of an empty frame are never reached.\<close>

theorem empty_frame_raises:
  assumes "argsort_ok argsort (sort_keys df)"
    and "\<forall>r \<in> set df. parse_timestamp (timestamp r) = Inr None"
  shows "process_data argsort df remove_duplicates = Inl AttributeError
       \<and> main argsort df remove_duplicates = Inl AttributeError"
proof -
  have "parse_rows df = []"
    using assms(2) by (auto simp: parse_rows_def List.map_filter_def filter_empty_conv)
  moreover have "\<not> (\<exists>r\<in>set df. parse_timestamp (timestamp r) = Inl TypeError)"
    using assms(2) by auto
  ultimately have "process_data argsort df remove_duplicates = Inl AttributeError"
    using assms(2) by (simp add: process_data_cases [OF assms(1)])
  then show ?thesis by (simp add: main_def)
qed

text \<open>The frame without rows, and a frame whose only timestamp is malformed.\<close>

theorem empty_frame_raises_witness:
  "argsort_ok np_argsort (sort_keys [])
   \<and> main np_argsort [] False = Inl AttributeError
   \<and> main np_argsort [] True = Inl AttributeError
   \<and> process_data np_argsort [] False = Inl AttributeError
   \<and> main np_argsort
        [\<lparr>timestamp = Text ''2024-06-28 13:59:38'', position = Text ''POINT (0 0)'',
          country_code = Text ''US'', route_id = Number 7\<rparr>] False = Inl AttributeError"
proof -
  let ?bad = "\<lparr>timestamp = Text ''2024-06-28 13:59:38'', position = Text ''POINT (0 0)'',
          country_code = Text ''US'', route_id = Number 7\<rparr>"
  have bad: "parse_timestamp (Text ''2024-06-28 13:59:38'') = Inr None"
    by (simp add: parse_timestamp_def strptime_def field_b_def a_month_def to_lower_def)
  have nil: "np_argsort [] = []" by code_simp
  have k: "sort_keys [] = []" "sort_keys [?bad] = []"
    by (simp_all add: sort_keys_def parse_rows_def List.map_filter_simps bad)
  have ok: "argsort_ok np_argsort (sort_keys [])" "argsort_ok np_argsort (sort_keys [?bad])"
    unfolding k by (simp_all add: argsort_ok_def nil)
  show ?thesis
    using ok(1) empty_frame_raises [OF ok(1)] empty_frame_raises [OF ok(2), of False]
    by (simp add: bad)
qed

lemma expect_Some_iff: "expect lit s = Some r \<longleftrightarrow> s = lit @ r"
  by (auto simp: expect_def) (metis append_take_drop_id)

lemma spaces1_SomeD:
  assumes "spaces1 s = Some r"
  shows "\<exists>w. s = w @ r \<and> w \<noteq> [] \<and> list_all is_space w"
proof -
  from assms obtain c t where s: "s = c # t" "is_space c" and r: "r = dropWhile is_space s"
    by (cases s) (auto simp: spaces1_def split: if_splits)
  have "s = takeWhile is_space s @ r" by (simp add: r)
  moreover have "takeWhile is_space s \<noteq> []" using s by simp
  moreover have "list_all is_space (takeWhile is_space s)"
    by (auto simp: list_all_iff dest: set_takeWhileD)
  ultimately show ?thesis by blast
qed

lemma spaces0_decomp: "\<exists>w. s = w @ spaces0 s \<and> list_all is_space w"
  by (rule exI [of _ "takeWhile is_space s"]) (auto simp: spaces0_def list_all_iff dest: set_takeWhileD)

lemma group_num_SomeD:
  "group_num s = Some (g, r) \<Longrightarrow> s = g @ r \<and> g \<noteq> [] \<and> list_all is_num_char g"
  by (auto simp: group_num_def Let_def list_all_iff split: if_splits dest: set_takeWhileD)

lemma not_digit_point [simp]: "\<not> is_digit (CHR ''.'')" "\<not> is_digit (CHR ''-'')"
  by (simp_all add: is_digit_def)

lemma not_space_misc [simp]:
  "\<not> is_space (CHR ''('')" "\<not> is_space (CHR '')'')" "\<not> is_space (CHR ''.'')" "\<not> is_space (CHR ''-'')"
  "is_digit c \<Longrightarrow> \<not> is_space c"
  by (auto simp: is_space_def is_digit_def)

lemma not_num_char_misc [simp]:
  "\<not> is_num_char (CHR '')'')" "is_space c \<Longrightarrow> \<not> is_num_char c"
  by (auto simp: is_space_def is_digit_def is_num_char_def)

lemma py_float_signed_decimal:
  "py_float g \<noteq> None \<longleftrightarrow> signed_decimal g"
proof -
  let ?body = "if take 1 g = ''-'' then drop 1 g else g"
  let ?ip = "takeWhile is_digit ?body"
  let ?rest = "dropWhile is_digit ?body"
  have b: "?body = ?ip @ ?rest" by simp
  have ipd: "\<forall>c\<in>set ?ip. is_digit c" by (auto dest: set_takeWhileD)
  have gen: "((if A then (if B then None else Some x) else if C then Some y else None) \<noteq> None)
      = (if A then \<not> B else C)" for A B C and x y :: real
    by auto
  have lhs: "py_float g \<noteq> None \<longleftrightarrow>
      (if ?rest = [] then ?ip \<noteq> []
       else take 1 ?rest = ''.'' \<and> list_all is_digit (drop 1 ?rest) \<and> (?ip \<noteq> [] \<or> drop 1 ?rest \<noteq> []))"
    unfolding py_float_def Let_def by (rule gen)
  have rhs: "signed_decimal g \<longleftrightarrow>
      (\<forall>c\<in>set (?ip @ ?rest). is_digit c \<or> c = CHR ''.'')
         \<and> length (filter (\<lambda>c. c = CHR ''.'') (?ip @ ?rest)) \<le> 1 \<and> (\<exists>c\<in>set (?ip @ ?rest). is_digit c)"
    unfolding signed_decimal_def Let_def list_all_iff list_ex_iff by (simp only: takeWhile_dropWhile_id)
  have nop: "filter (\<lambda>c. c = CHR ''.'') ?ip = []"
  proof -
    have "c \<noteq> CHR ''.''" if "c \<in> set ?ip" for c
      using ipd that not_digit_point(1) by metis
    then show ?thesis unfolding filter_empty_conv by blast
  qed
  have rhs': "signed_decimal g \<longleftrightarrow>
      (\<forall>c\<in>set ?rest. is_digit c \<or> c = CHR ''.'')
         \<and> length (filter (\<lambda>c. c = CHR ''.'') ?rest) \<le> 1
         \<and> (?ip \<noteq> [] \<or> (\<exists>c\<in>set ?rest. is_digit c))"
  proof -
    have "(\<exists>c\<in>set ?ip. is_digit c) \<longleftrightarrow> ?ip \<noteq> []"
      using ipd by (cases ?ip) auto
    then show ?thesis
      unfolding rhs using ipd by (auto simp only: set_append filter_append nop append_Nil Un_iff)
  qed
  show ?thesis
  proof (cases ?rest)
    case Nil
    show ?thesis unfolding lhs rhs' unfolding Nil by simp
  next
    case (Cons c fp)
    have c: "\<not> is_digit c"
      using hd_dropWhile [of is_digit ?body] unfolding Cons by (metis list.sel(1) list.distinct(1))
    have fp: "(\<forall>x\<in>set fp. is_digit x \<or> x = CHR ''.'') \<and> filter (\<lambda>c. c = CHR ''.'') fp = []
        \<longleftrightarrow> (\<forall>x\<in>set fp. is_digit x)"
      using not_digit_point(1) by (auto simp: filter_empty_conv)
    have ex: "(\<forall>x\<in>set fp. is_digit x) \<Longrightarrow> (\<exists>x\<in>set fp. is_digit x) \<longleftrightarrow> fp \<noteq> []"
      by (cases fp) auto
    show ?thesis
    proof (cases "c = CHR ''.''")
      case True
      have "length (filter (\<lambda>c. c = CHR ''.'') (c # fp)) \<le> 1 \<longleftrightarrow> filter (\<lambda>c. c = CHR ''.'') fp = []"
        using True by simp
      then show ?thesis
        unfolding lhs rhs' unfolding Cons using True c fp ex
        by (auto simp: list_all_iff)
    next
      case False
      then show ?thesis
        unfolding lhs rhs' unfolding Cons using c by auto
    qed
  qed
qed

lemma run_append:
  assumes "\<forall>x\<in>set xs. P x" and "ys = [] \<or> \<not> P (hd ys)"
  shows "takeWhile P (xs @ ys) = xs" and "dropWhile P (xs @ ys) = ys"
proof -
  have t: "takeWhile P ys = []" and d: "dropWhile P ys = ys"
    using assms(2) by (cases ys; simp)+
  show "takeWhile P (xs @ ys) = xs" using assms(1) t by (simp add: takeWhile_append2)
  show "dropWhile P (xs @ ys) = ys" using assms(1) d by (simp add: dropWhile_append2)
qed

lemma signed_decimal_chars:
  assumes "signed_decimal g"
  shows "g \<noteq> []" and "\<forall>c\<in>set g. is_num_char c"
proof -
  let ?body = "if take 1 g = ''-'' then drop 1 g else g"
  from assms have b: "\<forall>c\<in>set ?body. is_digit c \<or> c = CHR ''.''" and e: "\<exists>c\<in>set ?body. is_digit c"
    unfolding signed_decimal_def Let_def list_all_iff list_ex_iff by blast+
  from e show "g \<noteq> []" by (auto split: if_splits)
  show "\<forall>c\<in>set g. is_num_char c"
  proof (cases "take 1 g = ''-''")
    case True
    then have "g = CHR ''-'' # drop 1 g"
      by (cases g) auto
    then have "set g = insert (CHR ''-'') (set (drop 1 g))"
      by (metis list.simps(15))
    with b True show ?thesis by (auto simp: is_num_char_def)
  next
    case False
    with b show ?thesis by (auto simp: is_num_char_def)
  qed
qed

lemma match_point_complete:
  assumes s: "s = ''POINT'' @ w0 @ ''('' @ w1 @ g1 @ w2 @ g2 @ w3 @ '')'' @ rest"
    and w: "list_all is_space w0" "list_all is_space w1" "w2 \<noteq> []" "list_all is_space w2"
      "list_all is_space w3"
    and g: "g1 \<noteq> []" "\<forall>c\<in>set g1. is_num_char c" "g2 \<noteq> []" "\<forall>c\<in>set g2. is_num_char c"
  shows "match_point s = Some (g1, g2)"
proof -
  have 1: "expect ''POINT'' s = Some (w0 @ ''('' @ w1 @ g1 @ w2 @ g2 @ w3 @ '')'' @ rest)"
    by (simp add: expect_Some_iff s)
  have 2: "spaces0 (w0 @ ''('' @ w1 @ g1 @ w2 @ g2 @ w3 @ '')'' @ rest)
             = ''('' @ w1 @ g1 @ w2 @ g2 @ w3 @ '')'' @ rest"
    unfolding spaces0_def using w(1) by (intro run_append) (auto simp: list_all_iff)
  have 3: "expect ''('' (''('' @ w1 @ g1 @ w2 @ g2 @ w3 @ '')'' @ rest)
             = Some (w1 @ g1 @ w2 @ g2 @ w3 @ '')'' @ rest)"
    by (simp add: expect_Some_iff)
  have g1hd: "\<not> is_space (hd (g1 @ w2 @ g2 @ w3 @ '')'' @ rest))"
    using g(1,2) by (cases g1) auto
  have 4: "spaces0 (w1 @ g1 @ w2 @ g2 @ w3 @ '')'' @ rest) = g1 @ w2 @ g2 @ w3 @ '')'' @ rest"
    unfolding spaces0_def using w(2) g1hd by (intro run_append) (auto simp: list_all_iff)
  have w2hd: "\<not> is_num_char (hd (w2 @ g2 @ w3 @ '')'' @ rest))"
    using w(3,4) by (cases w2) auto
  have 5: "group_num (g1 @ w2 @ g2 @ w3 @ '')'' @ rest) = Some (g1, w2 @ g2 @ w3 @ '')'' @ rest)"
    using run_append [of g1 is_num_char "w2 @ g2 @ w3 @ '')'' @ rest"] g(1,2) w2hd
    by (simp add: group_num_def Let_def)
  have g2hd: "\<not> is_space (hd (g2 @ w3 @ '')'' @ rest))"
    using g(3,4) by (cases g2) auto
  have "dropWhile is_space (w2 @ g2 @ w3 @ '')'' @ rest) = g2 @ w3 @ '')'' @ rest"
    using w(4) g2hd by (intro run_append) (auto simp: list_all_iff)
  then have 6: "spaces1 (w2 @ g2 @ w3 @ '')'' @ rest) = Some (g2 @ w3 @ '')'' @ rest)"
    using w(3,4) by (cases w2) (auto simp: spaces1_def)
  have w3hd: "\<not> is_num_char (hd (w3 @ '')'' @ rest))"
    using w(5) by (cases w3) auto
  have 7: "group_num (g2 @ w3 @ '')'' @ rest) = Some (g2, w3 @ '')'' @ rest)"
    using run_append [of g2 is_num_char "w3 @ '')'' @ rest"] g(3,4) w3hd
    by (simp add: group_num_def Let_def)
  have 8: "spaces0 (w3 @ '')'' @ rest) = '')'' @ rest"
    unfolding spaces0_def using w(5) by (intro run_append) (auto simp: list_all_iff)
  have 9: "expect '')'' ('')'' @ rest) = Some rest"
    by (simp add: expect_Some_iff)
  show ?thesis
    using 1 2 3 4 5 6 7 8 9 by (simp add: match_point_def)
qed

lemma match_point_sound:
  assumes "match_point s = Some (g1, g2)"
  shows "\<exists>w0 w1 w2 w3 rest.
           s = ''POINT'' @ w0 @ ''('' @ w1 @ g1 @ w2 @ g2 @ w3 @ '')'' @ rest
         \<and> list_all is_space w0 \<and> list_all is_space w1 \<and> w2 \<noteq> [] \<and> list_all is_space w2
         \<and> list_all is_space w3"
proof -
  from assms obtain s1 s2 s3 s4 s5 r where
    1: "expect ''POINT'' s = Some s1" and 2: "expect ''('' (spaces0 s1) = Some s2"
    and 3: "group_num (spaces0 s2) = Some (g1, s3)" and 4: "spaces1 s3 = Some s4"
    and 5: "group_num s4 = Some (g2, s5)" and 6: "expect '')'' (spaces0 s5) = Some r"
    unfolding match_point_def by (auto split: bind_splits prod.splits)
  obtain w0 where w0: "s1 = w0 @ spaces0 s1" "list_all is_space w0" using spaces0_decomp by blast
  obtain w1 where w1: "s2 = w1 @ spaces0 s2" "list_all is_space w1" using spaces0_decomp by blast
  obtain w2 where w2: "s3 = w2 @ s4" "w2 \<noteq> []" "list_all is_space w2" using spaces1_SomeD [OF 4] by blast
  obtain w3 where w3: "s5 = w3 @ spaces0 s5" "list_all is_space w3" using spaces0_decomp by blast
  have "s = ''POINT'' @ s1" using 1 by (simp add: expect_Some_iff)
  also have "s1 = w0 @ ''('' @ s2" using w0(1) 2 by (simp add: expect_Some_iff)
  also have "s2 = w1 @ g1 @ s3" using w1(1) group_num_SomeD [OF 3] by simp
  also have "s3 = w2 @ g2 @ s5" using w2(1) group_num_SomeD [OF 5] by simp
  also have "s5 = w3 @ '')'' @ r" using w3(1) 6 by (simp add: expect_Some_iff)
  finally have "s = ''POINT'' @ w0 @ ''('' @ w1 @ g1 @ w2 @ g2 @ w3 @ '')'' @ r" by simp
  with w0(2) w1(2) w2(2,3) w3(2) show ?thesis by blast
qed

lemma parse_rows_mem:
  assumes "p \<in> set (parse_rows df)"
  shows "raw p \<in> set df"
    and "parse_timestamp (timestamp (raw p)) = Inr (Some (parsed_timestamp p))"
    and "extract_coordinates (position (raw p)) = Some (coords p)"
  using assms by (auto simp: parse_rows_def List.map_filter_def split: sum.splits option.splits)

lemma out_mem:
  assumes ok: "argsort_ok argsort (sort_keys df)" and res: "process_data argsort df rd = Inr out"
    and p: "p \<in> set out"
  shows "point.truncate p \<in> set (parse_rows df)"
proof -
  have "map point.truncate out = sort_values argsort (parse_rows df)"
  proof -
    let ?S = "sort_values argsort (parse_rows df)"
    have out: "out = map (traj_at ?S) [0..<length (parse_rows df)]"
      using process_data_Inr_D [OF ok res] by auto
    have len: "length ?S = length (parse_rows df)"
      by (rule sorted_rows(1) [OF ok])
    show ?thesis by (rule nth_equalityI) (auto simp: out len truncate_traj_at)
  qed
  then have "set (map point.truncate out) = set (parse_rows df)"
    by (simp add: sorted_rows(2) [OF ok])
  with p show ?thesis by auto
qed

lemma extract_coordinates_iff:
  "extract_coordinates (Text s) \<noteq> None \<longleftrightarrow> point_prefix_grammar s"
proof
  assume "extract_coordinates (Text s) \<noteq> None"
  then obtain g1 g2 where m: "match_point s = Some (g1, g2)"
    and f: "py_float g1 \<noteq> None" "py_float g2 \<noteq> None"
    unfolding extract_coordinates_def by (auto split: bind_splits prod.splits)
  from f have "signed_decimal g1" "signed_decimal g2"
    using py_float_signed_decimal by blast+
  with match_point_sound [OF m] show "point_prefix_grammar s"
    unfolding point_prefix_grammar_def by blast
next
  assume "point_prefix_grammar s"
  then obtain w0 w1 g1 w2 g2 w3 rest where
    s: "s = ''POINT'' @ w0 @ ''('' @ w1 @ g1 @ w2 @ g2 @ w3 @ '')'' @ rest"
    and w: "list_all is_space w0" "list_all is_space w1" "w2 \<noteq> []" "list_all is_space w2"
      "list_all is_space w3"
    and g: "signed_decimal g1" "signed_decimal g2"
    unfolding point_prefix_grammar_def by blast
  have "match_point s = Some (g1, g2)"
    using s w signed_decimal_chars [OF g(1)] signed_decimal_chars [OF g(2)]
    by (rule match_point_complete)
  moreover obtain lon lat where "py_float g1 = Some lon" "py_float g2 = Some lat"
    using g py_float_signed_decimal by (metis not_Some_eq)
  ultimately show "extract_coordinates (Text s) \<noteq> None"
    by (simp add: extract_coordinates_def)
qed

text \<open>Claim C5. A position \<^verbatim>\<open>POINT (<lon> <lat>)\<close>, with the two numbers separated by white
  space, gives the list of the latitude and then the longitude: the order of the text is
  reversed.\<close>

theorem coordinates_reversed:
  assumes "position_str = ''POINT ('' @ g1 @ w @ g2 @ '')''"
    and "w \<noteq> []" and "list_all is_space w"
    and "py_float g1 = Some lon" and "py_float g2 = Some lat"
  shows "extract_coordinates (Text position_str) = Some [lat, lon]"
proof -
  have sd: "signed_decimal g1" "signed_decimal g2"
    using assms(4,5) py_float_signed_decimal by (metis option.distinct(1))+
  have "position_str = ''POINT'' @ '' '' @ ''('' @ [] @ g1 @ w @ g2 @ [] @ '')'' @ []"
    by (simp add: assms(1))
  then have "match_point position_str = Some (g1, g2)"
    using assms(2,3) signed_decimal_chars [OF sd(1)] signed_decimal_chars [OF sd(2)]
    by (intro match_point_complete [where ?w0.0 = "'' ''" and ?w1.0 = "[]" and ?w2.0 = w
          and ?w3.0 = "[]" and rest = "[]"]) (auto simp: is_space_def)
  then show ?thesis
    by (simp add: extract_coordinates_def assms(4,5))
qed

text \<open>The position of the specification: latitude 37.7749 and longitude -122.4194.\<close>

theorem coordinates_reversed_witness:
  "py_float ''-122.4194'' = Some (- 122.4194) \<and> py_float ''37.7749'' = Some 37.7749
   \<and> extract_coordinates (Text ''POINT (-122.4194 37.7749)'') = Some [37.7749, - 122.4194]"
proof -
  have lon: "py_float ''-122.4194'' = Some (- 122.4194)"
    by (simp add: py_float_def is_digit_def int_of_digits_def digit_val_def)
  have lat: "py_float ''37.7749'' = Some 37.7749"
    by (simp add: py_float_def is_digit_def int_of_digits_def digit_val_def)
  have "extract_coordinates (Text ''POINT (-122.4194 37.7749)'') = Some [37.7749, - 122.4194]"
    using coordinates_reversed [of "''POINT (-122.4194 37.7749)''" "''-122.4194''" "'' ''"
        "''37.7749''" "- 122.4194" "37.7749"] lon lat
    by (simp add: is_space_def)
  with lon lat show ?thesis by blast
qed

text \<open>Claim C7, as the claim states it, fails: a text that goes on after the closing
  parenthesis is outside the grammar and yields coordinates.\<close>

theorem position_grammar_counterexample:
  "\<not> point_grammar ''POINT (1 2)xyz'' \<and> extract_coordinates (Text ''POINT (1 2)xyz'') = Some [2, 1]"
proof -
  have "\<not> point_grammar ''POINT (1 2)xyz''"
  proof
    assume "point_grammar ''POINT (1 2)xyz''"
    then obtain g1 w g2 where "''POINT (1 2)xyz'' = ''POINT ('' @ g1 @ w @ g2 @ '')''"
      unfolding point_grammar_def by blast
    then have "last ''POINT (1 2)xyz'' = last (''POINT ('' @ g1 @ w @ g2 @ '')'')"
      by simp
    then show False by simp
  qed
  moreover have "extract_coordinates (Text ''POINT (1 2)xyz'') = Some [2, 1]"
    by (simp add: pos_eval)
  ultimately show ?thesis by blast
qed

text \<open>Claim C7, amended. On text over the code points \<^verbatim>\<open>U+0000\<close> to \<^verbatim>\<open>U+00FF\<close>, with
  white space the class \<^verbatim>\<open>\s\<close> on these code points (\<open>is_space\<close>, which has the no-break
  space) and the digits \<^verbatim>\<open>0\<close> to \<^verbatim>\<open>9\<close>, \<open>extract_coordinates\<close> returns no coordinates
  exactly for the texts that do not start with a position (white space is optional before
  the opening parenthesis and inside the parentheses, and the text after the closing one
  is not looked at). A cell that is not text gives no coordinates. Every row of a result
  of \<open>process_data\<close> has a position that is text of this kind.\<close>

theorem position_prefix_grammar:
  "(extract_coordinates (Text s) = None \<longleftrightarrow> \<not> point_prefix_grammar s)
   \<and> extract_coordinates (Number x) = None \<and> extract_coordinates Missing = None
   \<and> (argsort_ok argsort (sort_keys df) \<longrightarrow> process_data argsort df remove_duplicates = Inr out \<longrightarrow>
        (\<forall>p \<in> set out. \<exists>t. position (raw p) = Text t \<and> point_prefix_grammar t))"
proof -
  have a: "extract_coordinates (Text s) = None \<longleftrightarrow> \<not> point_prefix_grammar s"
    using extract_coordinates_iff [of s] by blast
  have c: "extract_coordinates (Number x) = None" "extract_coordinates Missing = None"
    by (simp_all add: extract_coordinates_def)
  have b: "\<exists>t. position (raw p) = Text t \<and> point_prefix_grammar t"
    if ok: "argsort_ok argsort (sort_keys df)" and res: "process_data argsort df remove_duplicates = Inr out"
      and p: "p \<in> set out" for p
  proof -
    have "point.truncate p \<in> set (parse_rows df)" by (rule out_mem [OF ok res p])
    from parse_rows_mem(3) [OF this]
    have e: "extract_coordinates (position (raw p)) = Some (coords p)"
      by (simp add: point.truncate_def)
    then obtain t where t: "position (raw p) = Text t"
      using extract_coordinates_Some_D by blast
    with e have "point_prefix_grammar t"
      using extract_coordinates_iff [of t] by simp
    with t show ?thesis by blast
  qed
  from a b c show ?thesis by blast
qed

text \<open>A text that does not start with \<^verbatim>\<open>POINT\<close> gives no coordinates; a position written
  with no-break spaces gives coordinates; the rows of the example frame have positions of
  the kind.\<close>

theorem position_prefix_grammar_witness:
  "\<not> point_prefix_grammar ''LINESTRING (1 2)'' \<and> extract_coordinates (Text ''LINESTRING (1 2)'') = None
   \<and> extract_coordinates (Text (''POINT'' @ [CHR 0xA0] @ ''(1'' @ [CHR 0xA0] @ ''2)'')) \<noteq> None
   \<and> argsort_ok np_argsort (sort_keys demo_rows)
   \<and> (\<exists>out. process_data np_argsort demo_rows False = Inr out \<and> out \<noteq> []
         \<and> (\<forall>p \<in> set out. \<exists>t. position (raw p) = Text t \<and> point_prefix_grammar t))"
proof -
  have ok: "argsort_ok np_argsort (sort_keys demo_rows)" by (rule demo_argsort_ok)
  obtain out where out: "process_data np_argsort demo_rows False = Inr out"
    using process_data_demo by blast
  have ne: "out \<noteq> []" using demo_out(1) [OF out] by auto
  have n: "\<not> point_prefix_grammar ''LINESTRING (1 2)''"
    unfolding point_prefix_grammar_def by simp
  have g: "point_prefix_grammar (''POINT'' @ [CHR 0xA0] @ ''(1'' @ [CHR 0xA0] @ ''2)'')"
    unfolding point_prefix_grammar_def
    by (rule exI [of _ "[CHR 0xA0]"], rule exI [of _ "[]"], rule exI [of _ "''1''"],
        rule exI [of _ "[CHR 0xA0]"], rule exI [of _ "''2''"], rule exI [of _ "[]"],
        rule exI [of _ "[]"])
       (simp add: is_space_def signed_decimal_def is_digit_def)
  have "extract_coordinates (Text ''LINESTRING (1 2)'') = None"
    using position_prefix_grammar [of "''LINESTRING (1 2)''" 0 np_argsort demo_rows False out] n
    by blast
  moreover have "extract_coordinates (Text (''POINT'' @ [CHR 0xA0] @ ''(1'' @ [CHR 0xA0] @ ''2)'')) \<noteq> None"
    using position_prefix_grammar [of "''POINT'' @ [CHR 0xA0] @ ''(1'' @ [CHR 0xA0] @ ''2)''" 0
        np_argsort demo_rows False out] g
    by blast
  moreover have "\<forall>p \<in> set out. \<exists>t. position (raw p) = Text t \<and> point_prefix_grammar t"
    using position_prefix_grammar [of "''LINESTRING (1 2)''" 0 np_argsort demo_rows False out] ok out
    by blast
  ultimately show ?thesis using n ok out ne by blast
qed





















end
